theory Spec2Isabelle
  imports Main "HOL-Library.Word"
begin

unbundle bit_operations_syntax

section \<open>Framing codecs\<close>

subsection \<open>COBS (cobs.c)\<close>

type_synonym u8 = "8 word"
type_synonym u16 = "16 word"
type_synonym u32 = "32 word"

definition COBS_DEL :: u8 where
  "COBS_DEL = 0x00"

definition COBS_EXT :: u8 where
  "COBS_EXT = 0xFF"

text \<open>
  The file-scope struct \<^verbatim>\<open>COBS_ctrl\<close> of the inline decoder: the latest COBS code
  (a decrementer, field \<^verbatim>\<open>code\<close>) and the number of bytes read in the current frame
  (field \<^verbatim>\<open>count\<close>). It starts as \<^verbatim>\<open>{255, 255}\<close>.
\<close>

record COBS_ctrl =
  cobs_code :: u8
  cobs_count :: u8

definition COBS_ctrl_init :: COBS_ctrl where
  "COBS_ctrl_init = \<lparr>cobs_code = 255, cobs_count = 255\<rparr>"

text \<open>
  The tail of \<^verbatim>\<open>COBS_decode_inline\<close> that every path which stores a byte runs through:
  \<^verbatim>\<open>COBS_ctrl.code--\<close>, then the store \<^verbatim>\<open>dest[COBS_ctrl.count++] = c\<close> when
  \<^verbatim>\<open>count < size\<close>, else \<^verbatim>\<open>code = 255; return size + 1\<close>. The return type is
  \<^verbatim>\<open>uint8_t\<close>, so \<^verbatim>\<open>size + 1\<close> is taken modulo 256. The destination is a list; the
  caller owns at least \<^verbatim>\<open>size\<close> bytes, and a store behind the end of the list
  (which the C code would perform out of bounds) leaves the list as it is.
\<close>

definition COBS_store :: "u8 \<Rightarrow> u8 list \<Rightarrow> u8 \<Rightarrow> COBS_ctrl \<Rightarrow> u8 \<times> u8 list \<times> COBS_ctrl" where
  "COBS_store c dest sz st =
     (let st1 = st\<lparr>cobs_code := cobs_code st - 1\<rparr> in
      if cobs_count st1 < sz
      then (0, dest[unat (cobs_count st1) := c], st1\<lparr>cobs_count := cobs_count st1 + 1\<rparr>)
      else (sz + 1, dest, st1\<lparr>cobs_code := 255\<rparr>))"

text \<open>
  \<^verbatim>\<open>uint8_t COBS_decode_inline (uint8_t c, uint8_t* dest, uint8_t size)\<close>: the result is
  the returned byte, the destination buffer and the control struct after the call.
\<close>

definition COBS_decode_inline :: "u8 \<Rightarrow> u8 list \<Rightarrow> u8 \<Rightarrow> COBS_ctrl \<Rightarrow> u8 \<times> u8 list \<times> COBS_ctrl" where
  "COBS_decode_inline c dest sz st =
     (if c = COBS_DEL then
        (let c1 = cobs_code st; st1 = st\<lparr>cobs_code := 255\<rparr> in
         if c1 = 0 then (cobs_count st1, dest, st1\<lparr>cobs_count := 0\<rparr>)
         else (0, dest, st1\<lparr>cobs_count := 0\<rparr>))
      else if cobs_code st = 255 then
        (if cobs_count st \<noteq> 0 then (0, dest, st)
         else
           (let st1 = st\<lparr>cobs_code := c\<rparr> in
            if c > 1 then (0, dest, st1\<lparr>cobs_code := cobs_code st1 - 1\<rparr>)
            else COBS_store 0 dest sz st1))
      else if cobs_code st = 0 then COBS_store 0 dest sz (st\<lparr>cobs_code := c\<rparr>)
      else COBS_store c dest sz st)"

text \<open>
  Feeding a received byte sequence to the decoder one byte at a time. The result keeps the
  value returned by the last call (0 when no byte was fed).
\<close>

fun COBS_decode_all :: "u8 list \<Rightarrow> u8 list \<Rightarrow> u8 \<Rightarrow> COBS_ctrl \<Rightarrow> u8 \<Rightarrow> u8 \<times> u8 list \<times> COBS_ctrl" where
  "COBS_decode_all [] dest sz st r = (r, dest, st)"
| "COBS_decode_all (c # cs) dest sz st r =
     (case COBS_decode_inline c dest sz st of
        (r1, dest1, st1) \<Rightarrow> COBS_decode_all cs dest1 sz st1 r1)"

text \<open>
  The inner loop of \<^verbatim>\<open>COBS_encode\<close>, \<^verbatim>\<open>while (*srcb++ != COBS_DEL) c++;\<close>. \<^verbatim>\<open>srcb\<close> is
  an index into the COBS buffer and \<^verbatim>\<open>c\<close> is a \<^verbatim>\<open>uint8_t\<close> that wraps. The C loop
  has no bound; a read behind the end of the buffer is the value \<open>None\<close>.
\<close>

function COBS_scan :: "u8 list \<Rightarrow> nat \<Rightarrow> u8 \<Rightarrow> (nat \<times> u8) option" where
  "COBS_scan buf srcb c =
     (if srcb < length buf
      then (if buf ! srcb \<noteq> COBS_DEL then COBS_scan buf (srcb + 1) (c + 1)
            else Some (srcb + 1, c))
      else None)"
  by pat_completeness auto
termination
  by (relation "measure (\<lambda>(buf, srcb, c). length buf - srcb)") auto

declare COBS_scan.simps [simp del]

text \<open>
  The outer loop of \<^verbatim>\<open>COBS_encode\<close>, \<^verbatim>\<open>while (size) { ... *srca = c; srca += c; size -= c; }\<close>,
  with \<^verbatim>\<open>srca\<close> and \<^verbatim>\<open>srcb\<close> as indices into the buffer and \<^verbatim>\<open>size\<close> an 8-bit
  counter. It returns the buffer and the final \<^verbatim>\<open>srca\<close>.
\<close>

function COBS_loop :: "u8 list \<Rightarrow> nat \<Rightarrow> nat \<Rightarrow> u8 \<Rightarrow> (u8 list \<times> nat) option" where
  "COBS_loop buf srca srcb sz =
     (if sz = 0 then Some (buf, srca)
      else
        (case COBS_scan buf srcb 1 of
           None \<Rightarrow> None
         | Some (srcb', c) \<Rightarrow>
             if srca < length buf
             then COBS_loop (buf[srca := c]) (srca + unat c) srcb' (sz - c)
             else None))"
  by pat_completeness auto
termination
proof (relation "measure (\<lambda>(buf, srca, srcb, sz). length buf - srcb)")
  show "wf (measure (\<lambda>(buf, srca, srcb, sz). length buf - srcb))"
    by simp
next
  fix buf :: "u8 list" and srca srcb :: nat and sz :: u8 and x2 x y
  assume scan: "COBS_scan buf srcb 1 = Some x2" and x2: "(x, y) = x2"
  have bounds: "COBS_scan b i c = Some (i', c') \<Longrightarrow> i < i' \<and> i' \<le> length b" for b i c i' c'
  proof (induction b i c rule: COBS_scan.induct)
    case (1 b i c)
    show ?case
    proof (cases "i < length b \<and> b ! i \<noteq> COBS_DEL")
      case True
      with "1.prems" have "COBS_scan b (i + 1) (c + 1) = Some (i', c')"
        by (subst (asm) COBS_scan.simps) simp
      with True "1.IH" show ?thesis by fastforce
    next
      case False
      with "1.prems" show ?thesis
        by (subst (asm) COBS_scan.simps) (auto split: if_splits)
    qed
  qed
  from scan x2 have "COBS_scan buf srcb 1 = Some (x, y)" by simp
  from bounds [OF this] have "length buf - x < length buf - srcb"
    by arith
  then show "((buf[srca := y], srca + unat y, x, sz - y), buf, srca, srcb, sz)
        \<in> measure (\<lambda>(buf, srca, srcb, sz). length buf - srcb)"
    by simp
qed

declare COBS_loop.simps [simp del]

text \<open>
  \<^verbatim>\<open>void COBS_encode (COBS_buf* src, uint8_t size, bool extended)\<close>. The COBS buffer is
  the list \<open>buf\<close>: two header bytes, the payload from index 2 on, and room for the
  trailing delimiter. The function works in place and the model returns the buffer after
  the call, or \<open>None\<close> when the C code would leave the buffer.
\<close>

definition COBS_encode :: "u8 list \<Rightarrow> u8 \<Rightarrow> bool \<Rightarrow> u8 list option" where
  "COBS_encode src sz extended =
     (if 2 + unat sz < length src then
        (let buf0 = src[0 := COBS_DEL];
             buf1 = buf0[2 + unat sz := COBS_DEL]
         in case COBS_loop buf1 1 2 (sz + 1) of
              None \<Rightarrow> None
            | Some (buf2, srca) \<Rightarrow>
                if extended
                then (if srca < length buf2 then Some (buf2[srca := COBS_EXT]) else None)
                else Some buf2)
      else None)"

text \<open>
  A COBS buffer holding the payload \<open>p\<close>: the two header bytes and the byte behind the
  payload are whatever the caller left there.
\<close>

definition COBS_buffer :: "u8 \<Rightarrow> u8 \<Rightarrow> u8 list \<Rightarrow> u8 \<Rightarrow> u8 list" where
  "COBS_buffer h0 h1 p t = h0 # h1 # p @ [t]"

text \<open>
  The COBS encoding as the header of \<^verbatim>\<open>cobs.c\<close> describes it, as a function of the
  payload: every run of non-zero bytes up to the next zero (or the end of the payload) is
  preceded by its length plus one. \<open>COBS_stuffed p\<close> is the encoded frame between the two
  delimiters; the encoder and the decoder are compared with it.
\<close>

fun COBS_stuffed :: "u8 list \<Rightarrow> u8 list" where
  "COBS_stuffed [] = [1]"
| "COBS_stuffed (x # xs) =
     (if x = COBS_DEL then 1 # COBS_stuffed xs
      else (hd (COBS_stuffed xs) + 1) # x # tl (COBS_stuffed xs))"

subsection \<open>ESCS (escs.c)\<close>

definition ESCS_ESC :: u8 where
  "ESCS_ESC = 0x7D"

definition ESCS_DEL :: u8 where
  "ESCS_DEL = 0x7E"

text \<open>
  The file-scope struct \<^verbatim>\<open>ESCS_ctrl\<close>: the decoding state (field \<^verbatim>\<open>state\<close>) and the
  number of bytes read in the current frame (field \<^verbatim>\<open>count\<close>). It starts as
  \<^verbatim>\<open>{0, 0}\<close>.
\<close>

record ESCS_ctrl =
  escs_state :: u8
  escs_count :: u8

definition ESCS_ctrl_init :: ESCS_ctrl where
  "ESCS_ctrl_init = \<lparr>escs_state = 0, escs_count = 0\<rparr>"

text \<open>
  \<^verbatim>\<open>uint8_t ESCS_decode_inline (uint8_t c, uint8_t* dest, uint8_t size)\<close>, with the same
  conventions as for the COBS decoder.
\<close>

definition ESCS_decode_inline :: "u8 \<Rightarrow> u8 list \<Rightarrow> u8 \<Rightarrow> ESCS_ctrl \<Rightarrow> u8 \<times> u8 list \<times> ESCS_ctrl" where
  "ESCS_decode_inline c dest sz st =
     (if c = ESCS_DEL then
        (let st1 = st\<lparr>escs_state := 255\<rparr> in
         if escs_count st1 \<noteq> 0 then (escs_count st1, dest, st1\<lparr>escs_count := 0\<rparr>)
         else (0, dest, st1))
      else if c = ESCS_ESC then (0, dest, st\<lparr>escs_state := ESCS_ESC\<rparr>)
      else if escs_state st \<noteq> 0 then
        (let c1 = (if escs_state st = ESCS_ESC then c + 0x20 else c);
             st1 = (if escs_state st = ESCS_ESC then st\<lparr>escs_state := 255\<rparr> else st)
         in if escs_count st1 < sz
            then (0, dest[unat (escs_count st1) := c1], st1\<lparr>escs_count := escs_count st1 + 1\<rparr>)
            else (sz + 1, dest, st1\<lparr>escs_state := 0\<rparr>))
      else (0, dest, st))"

text \<open>
  Feeding a byte sequence to the ESCS decoder; the result lists the value returned by each
  call, in order, with the final buffer and control struct.
\<close>

fun ESCS_decode_trace :: "u8 list \<Rightarrow> u8 list \<Rightarrow> u8 \<Rightarrow> ESCS_ctrl \<Rightarrow> u8 list \<times> u8 list \<times> ESCS_ctrl" where
  "ESCS_decode_trace [] dest sz st = ([], dest, st)"
| "ESCS_decode_trace (c # cs) dest sz st =
     (case ESCS_decode_inline c dest sz st of
        (r1, dest1, st1) \<Rightarrow>
          (case ESCS_decode_trace cs dest1 sz st1 of
             (rs, dest2, st2) \<Rightarrow> (r1 # rs, dest2, st2)))"

text \<open>
  \<^verbatim>\<open>uint32_t ESCS_encode (uint8_t* src, uint8_t* dest, uint32_t size)\<close>: the bytes written
  to the destination; the returned count is their number.
\<close>

fun ESCS_stuff :: "u8 list \<Rightarrow> u8 list" where
  "ESCS_stuff [] = []"
| "ESCS_stuff (c # cs) =
     (if c = ESCS_DEL \<or> c = ESCS_ESC then ESCS_ESC # (c - 0x20) # ESCS_stuff cs
      else c # ESCS_stuff cs)"

definition ESCS_encode :: "u8 list \<Rightarrow> u8 list" where
  "ESCS_encode src = ESCS_DEL # ESCS_stuff src @ [ESCS_DEL]"

section \<open>The host (lasso_host.c)\<close>

subsection \<open>Error codes (lasso_errno.h)\<close>

type_synonym s32 = "32 word"

definition EFAULT :: s32 where "EFAULT = 14"
definition EBUSY :: s32 where "EBUSY = 16"
definition EINVAL :: s32 where "EINVAL = 22"
definition ENOMEM :: s32 where "ENOMEM = 12"
definition ENOSPC :: s32 where "ENOSPC = 28"
definition ENODATA :: s32 where "ENODATA = 61"
definition EOPNOTSUPP :: s32 where "EOPNOTSUPP = 95"
definition EACCES :: s32 where "EACCES = 13"
definition EILSEQ :: s32 where "EILSEQ = 138"
definition EOVERFLOW :: s32 where "EOVERFLOW = 139"

subsection \<open>Compile-time configuration (lasso_host_config.h)\<close>

text \<open>
  The source selects encodings, processing mode, CRC and buffer sizes with preprocessor
  symbols. The model takes them as a value, one field for each \<^verbatim>\<open>LASSO_HOST_...\<close> symbol
  the modelled functions read.
\<close>

datatype encoding = ENCODING_NONE | ENCODING_RN | ENCODING_COBS | ENCODING_ESCS

text \<open>The numeric values of the \<^verbatim>\<open>LASSO_ENCODING_...\<close> symbols, which the source compares.\<close>

fun encoding_code :: "encoding \<Rightarrow> nat" where
  "encoding_code ENCODING_NONE = 0"
| "encoding_code ENCODING_RN = 1"
| "encoding_code ENCODING_COBS = 2"
| "encoding_code ENCODING_ESCS = 3"

datatype processing_mode = ASCII_MODE | MSGPACK_MODE

record config =
  COMMAND_ENCODING :: encoding
  STROBE_ENCODING :: encoding
  PROCESSING_MODE :: processing_mode
  STROBE_DYNAMIC :: bool
  CRC_BYTEWIDTH :: u32
  COMMAND_CRC_ENABLE :: bool
  STROBE_CRC_ENABLE :: bool
  COMMAND_BUFFER_SIZE :: nat
  RESPONSE_BUFFER_SIZE :: u32
  COMMAND_TIMEOUT_TICKS :: u32
  RESPONSE_LATENCY_TICKS :: u16
  ROUNDTRIP_LATENCY_TICKS :: u16
  ADVERTISE_PERIOD_TICKS :: u16
  STROBE_PERIOD_MIN_TICKS :: u16
  STROBE_PERIOD_MAX_TICKS :: u16
  STROBE_PERIOD_TICKS :: u16
  STROBE_EXTERNAL_SYNC :: bool
  STROBE_EXTERNAL_SOURCE :: bool
  MAX_FRAME_SIZE :: u32
  MEMORY_ALIGN :: u32
  TIMESTAMP :: bool
  PROTOCOL_INFO_WORD :: u32

subsection \<open>Data cells and data frames\<close>

definition LASSO_DATACELL_ENABLE :: u16 where "LASSO_DATACELL_ENABLE = 0x0001"
definition LASSO_DATACELL_ENABLE_MASK :: u16 where "LASSO_DATACELL_ENABLE_MASK = 0x0001"
definition LASSO_DATACELL_DISABLE_MASK :: u16 where "LASSO_DATACELL_DISABLE_MASK = 0xFFFE"
definition LASSO_DATACELL_BYTEWIDTH_MASK :: u16 where "LASSO_DATACELL_BYTEWIDTH_MASK = 0x000E"
definition LASSO_DATACELL_WRITEABLE :: u16 where "LASSO_DATACELL_WRITEABLE = 0x0100"
definition LASSO_DATACELL_PERMANENT :: u16 where "LASSO_DATACELL_PERMANENT = 0x0200"
definition LASSO_UINT8 :: u16 where "LASSO_UINT8 = 0x0020"
definition LASSO_UINT16 :: u16 where "LASSO_UINT16 = 0x0022"
definition LASSO_FLOAT :: u16 where "LASSO_FLOAT = 0x0044"

text \<open>
  \<^verbatim>\<open>struct DATACELL\<close>. The fields \<^verbatim>\<open>type\<close>, \<^verbatim>\<open>count\<close> and \<^verbatim>\<open>update_rate\<close> are
  kept as they are; \<^verbatim>\<open>ptr\<close> is kept as the fact whether it is \<^verbatim>\<open>NULL\<close>; the strings
  and the change callback live outside the host and are not part of the model. The
  \<^verbatim>\<open>next\<close> pointers are the order of the list of cells in the host state.
\<close>

record dataCell =
  cell_type :: u16
  cell_count :: u16
  cell_ptr_null :: bool
  update_rate :: u32

text \<open>
  Where a data frame's \<^verbatim>\<open>frame\<close> pointer points: into the frame's own buffer, or (for
  the strobe frame while advertising) into \<^verbatim>\<open>lasso_signature\<close>.
\<close>

datatype region = IN_BUFFER | IN_SIGNATURE

text \<open>
  \<^verbatim>\<open>struct DATAFRAME\<close>. \<^verbatim>\<open>buffer\<close> is \<open>None\<close> for \<^verbatim>\<open>NULL\<close> and otherwise the
  content of the allocated memory; \<^verbatim>\<open>frame\<close> is a region and a byte offset in it.
\<close>

record dataFrame =
  countdown :: u16
  COBS_backup :: u8
  valid :: u8
  buffer :: "u8 list option"
  frame_region :: region
  frame :: nat
  Byte_count :: u32
  Bytes_max :: u32
  Bytes_total :: u32

text \<open>
  The file-scope variables of lasso_host.c, with the control structs of the two inline
  decoders (file-scope variables of cobs.c and escs.c). \<open>dataCells\<close> is the chain
  from \<^verbatim>\<open>dataCellFirst\<close> to \<^verbatim>\<open>dataCellLast\<close>.
\<close>

record host =
  dataCells :: "dataCell list"
  dataCellCount :: u8
  dataCellMaskBytes :: u8
  receiveBuffer :: "u8 list option"
  receiveBufferIndex :: u8
  receiveTimeout :: u32
  lasso_strobing :: bool
  lasso_advertise :: bool
  strobe :: dataFrame
  response :: dataFrame
  lasso_strobe_period :: u16
  lasso_advertise_period_ticks :: u16
  lasso_overdrive :: u32
  lasso_timestamp :: u32
  lasso_signature :: "u8 list"
  COBS_ctrl :: COBS_ctrl
  ESCS_ctrl :: ESCS_ctrl

text \<open>
  The 16 bytes of \<^verbatim>\<open>lasso_signature\<close>: \<^verbatim>\<open>"lassoHost/"\<close>, the protocol info word (the
  value of the macro \<^verbatim>\<open>LASSO_PROTOCOL_INFO\<close>, here in little-endian byte order) and
  \<^verbatim>\<open>"\\r\\n"\<close>.
\<close>

definition signature_bytes :: "u32 \<Rightarrow> u8 list" where
  "signature_bytes info =
     [0x6C, 0x61, 0x73, 0x73, 0x6F, 0x48, 0x6F, 0x73, 0x74, 0x2F] @
     map (\<lambda>i. ucast (drop_bit (8 * i) info)) [0, 1, 2, 3] @ [0x0D, 0x0A]"

text \<open>The initial values of the file-scope variables.\<close>

definition host_init :: "config \<Rightarrow> host" where
  "host_init cfg =
     \<lparr>dataCells = [],
      dataCellCount = 0,
      dataCellMaskBytes = 0,
      receiveBuffer = None,
      receiveBufferIndex = 0,
      receiveTimeout = 0,
      lasso_strobing = False,
      lasso_advertise = True,
      strobe = \<lparr>countdown = STROBE_PERIOD_TICKS cfg, COBS_backup = 0, valid = 1,
                buffer = None, frame_region = IN_BUFFER, frame = 0,
                Byte_count = 0, Bytes_max = 0, Bytes_total = 0\<rparr>,
      response = \<lparr>countdown = ROUNDTRIP_LATENCY_TICKS cfg, COBS_backup = 0, valid = 0,
                  buffer = None, frame_region = IN_BUFFER, frame = 0,
                  Byte_count = 0, Bytes_max = RESPONSE_BUFFER_SIZE cfg, Bytes_total = 0\<rparr>,
      lasso_strobe_period = STROBE_PERIOD_TICKS cfg,
      lasso_advertise_period_ticks = ADVERTISE_PERIOD_TICKS cfg,
      lasso_overdrive = 0,
      lasso_timestamp = 0,
      lasso_signature = signature_bytes (PROTOCOL_INFO_WORD cfg),
      COBS_ctrl = COBS_ctrl_init,
      ESCS_ctrl = ESCS_ctrl_init\<rparr>"

subsection \<open>lasso_hostCountdown\<close>

text \<open>
  \<^verbatim>\<open>void lasso_hostCountdown (uint16_t count)\<close>: set the strobe countdown to 0 when
  \<^verbatim>\<open>count > strobe.countdown\<close>, else subtract.
\<close>

definition lasso_hostCountdown :: "u16 \<Rightarrow> host \<Rightarrow> host" where
  "lasso_hostCountdown cnt s =
     (if cnt > countdown (strobe s)
      then s\<lparr>strobe := (strobe s)\<lparr>countdown := 0\<rparr>\<rparr>
      else s\<lparr>strobe := (strobe s)\<lparr>countdown := countdown (strobe s) - cnt\<rparr>\<rparr>)"

subsection \<open>lasso_hostSeekDatacell\<close>

text \<open>
  The number of strobe bytes of a cell, as the source computes it in
  \<^verbatim>\<open>lasso_hostSeekDatacell\<close>, \<^verbatim>\<open>lasso_hostRegisterDataCell\<close> and the
  \<^verbatim>\<open>LASSO_HOST_SET_DATACELL_STROBE\<close> case: \<^verbatim>\<open>(uint32_t)count * (uint32_t)(type & 
  LASSO_DATACELL_BYTEWIDTH_MASK)\<close>, or \<^verbatim>\<open>count\<close> when the masked width is 0.
\<close>

definition cell_Bytes :: "u16 \<Rightarrow> u16 \<Rightarrow> u32" where
  "cell_Bytes ty cnt =
     (if ty AND LASSO_DATACELL_BYTEWIDTH_MASK \<noteq> 0
      then ucast cnt * ucast (ty AND LASSO_DATACELL_BYTEWIDTH_MASK)
      else ucast cnt)"

text \<open>
  The loop of \<^verbatim>\<open>lasso_hostSeekDatacell\<close>,
  \<^verbatim>\<open>while (num && dC) { ...; if (num) dC = dC->next; num--; }\<close>, on the rest of the chain.
  The result is the returned cell pointer (\<open>None\<close> for \<^verbatim>\<open>NULL\<close>) and \<^verbatim>\<open>*bytepos\<close>.
\<close>

fun seek_loop :: "dataCell list \<Rightarrow> u8 \<Rightarrow> u32 \<Rightarrow> dataCell option \<times> u32" where
  "seek_loop [] num pos = (None, pos)"
| "seek_loop (dC # rest) num pos =
     (if num \<noteq> 0
      then seek_loop rest (num - 1)
             (if cell_type dC AND LASSO_DATACELL_ENABLE \<noteq> 0
              then pos + cell_Bytes (cell_type dC) (cell_count dC)
              else pos)
      else (Some dC, pos))"

definition lasso_hostSeekDatacell :: "host \<Rightarrow> u8 \<Rightarrow> dataCell option \<times> u32" where
  "lasso_hostSeekDatacell s num = seek_loop (dataCells s) num 0"

subsection \<open>lasso_hostRegisterDataCell and lasso_hostRegisterMEM\<close>

text \<open>
  \<^verbatim>\<open>int32_t lasso_hostRegisterDataCell (type, count, ptr, name, unit, onChange [, update_rate])\<close>.
  \<open>fresh\<close> is what \<^verbatim>\<open>LASSO_HOST_MALLOC(sizeof(dataCell))\<close> returns: \<open>None\<close> for
  \<^verbatim>\<open>NULL\<close>, else the content of the fresh struct, which the function overwrites field by
  field. The new cell is linked behind \<^verbatim>\<open>dataCellLast\<close> and its \<^verbatim>\<open>type\<close> and
  \<^verbatim>\<open>count\<close> are written before the \<^verbatim>\<open>ptr == NULL\<close> check returns \<^verbatim>\<open>EFAULT\<close>;
  the source sets the \<^verbatim>\<open>next\<close> pointer of such a cell only when the next registration
  links a cell behind it.
\<close>

definition lasso_hostRegisterDataCell ::
  "config \<Rightarrow> dataCell option \<Rightarrow> u16 \<Rightarrow> u16 \<Rightarrow> bool \<Rightarrow> u16 \<Rightarrow> host \<Rightarrow> s32 \<times> host" where
  "lasso_hostRegisterDataCell cfg fresh ty cnt ptr_null rate s =
     (case fresh of
        None \<Rightarrow> (ENOMEM, s)
      | Some raw \<Rightarrow>
          (let ty1 = (if STROBE_EXTERNAL_SOURCE cfg then ty OR LASSO_DATACELL_PERMANENT else ty);
               ty2 = (if ty1 AND LASSO_DATACELL_PERMANENT \<noteq> 0
                      then ty1 OR LASSO_DATACELL_ENABLE else ty1);
               dC1 = raw\<lparr>cell_type := ty2, cell_count := cnt\<rparr>
           in if \<not> STROBE_EXTERNAL_SOURCE cfg \<and> ptr_null
              then (EFAULT, s\<lparr>dataCells := dataCells s @ [dC1]\<rparr>)
              else
                (let dC2 = dC1\<lparr>cell_ptr_null := ptr_null,
                                update_rate := (if STROBE_DYNAMIC cfg
                                                then push_bit 16 (ucast rate) + ucast rate
                                                else push_bit 16 1 + 1)\<rparr>;
                     dC_Bytes = cell_Bytes ty2 cnt;
                     st1 = (strobe s)\<lparr>Bytes_max := Bytes_max (strobe s) + dC_Bytes\<rparr>;
                     st2 = (if ty2 AND LASSO_DATACELL_ENABLE_MASK \<noteq> 0
                            then st1\<lparr>Bytes_total := Bytes_total st1 + dC_Bytes\<rparr> else st1)
                 in (0, s\<lparr>dataCells := dataCells s @ [dC2],
                          strobe := st2,
                          dataCellCount := dataCellCount s + 1\<rparr>))))"

text \<open>
  The rounding of a buffer size to the alignment boundary in \<^verbatim>\<open>lasso_hostRegisterMEM\<close>.
\<close>

definition align_up :: "config \<Rightarrow> u32 \<Rightarrow> u32" where
  "align_up cfg n =
     (if n AND (MEMORY_ALIGN cfg - 1) \<noteq> 0
      then (n AND NOT (MEMORY_ALIGN cfg - 1)) + MEMORY_ALIGN cfg
      else n)"

text \<open>
  \<^verbatim>\<open>dataCellMaskBytes = ((dataCellCount - 1) >> 3) + 1\<close>: the subtraction is done in
  \<^verbatim>\<open>int\<close>, so for a count of 0 the shifted value is \<open>-1\<close> (arithmetic shift) and the
  result 0.
\<close>

definition mask_bytes :: "u8 \<Rightarrow> u8" where
  "mask_bytes n = (if n = 0 then 0 else drop_bit 3 (n - 1) + 1)"

text \<open>
  The first half of \<^verbatim>\<open>lasso_hostRegisterMEM\<close> computes the sizes. For the strobe frame:
  one byte for the invalid MessagePack code when the strobe is byte-stuffed, the mask bytes
  of dynamic strobing, the CRC bytes, then (in \<^verbatim>\<open>Bytes_max\<close> only) the encoding overhead,
  the rounding to the alignment boundary and the doubling for ESCS.
\<close>

definition strobe_sizes :: "config \<Rightarrow> u8 \<Rightarrow> dataFrame \<Rightarrow> dataFrame" where
  "strobe_sizes cfg mb st0 =
     (let st1 = (if STROBE_ENCODING cfg = ENCODING_ESCS \<or> STROBE_ENCODING cfg = ENCODING_COBS
                 then st0\<lparr>Bytes_max := Bytes_max st0 + 1, Bytes_total := Bytes_total st0 + 1\<rparr>
                 else st0);
          st2 = (if STROBE_DYNAMIC cfg
                 then st1\<lparr>Bytes_max := Bytes_max st1 + ucast mb,
                          Bytes_total := Bytes_total st1 + ucast mb\<rparr>
                 else st1);
          st3 = (if STROBE_CRC_ENABLE cfg
                 then st2\<lparr>Bytes_max := Bytes_max st2 + CRC_BYTEWIDTH cfg,
                          Bytes_total := Bytes_total st2 + CRC_BYTEWIDTH cfg\<rparr>
                 else st2);
          st4 = (case STROBE_ENCODING cfg of
                   ENCODING_ESCS \<Rightarrow> st3\<lparr>Bytes_max := Bytes_max st3 + 2\<rparr>
                 | ENCODING_COBS \<Rightarrow> st3\<lparr>Bytes_max := Bytes_max st3 + 3\<rparr>
                 | _ \<Rightarrow> st3);
          st5 = st4\<lparr>Bytes_max := align_up cfg (Bytes_max st4)\<rparr>
      in if STROBE_ENCODING cfg = ENCODING_ESCS
         then st5\<lparr>Bytes_max := Bytes_max st5 * 2\<rparr> else st5)"

text \<open>For the response frame: the CRC bytes, the encoding overhead, rounding and doubling.\<close>

definition response_sizes :: "config \<Rightarrow> dataFrame \<Rightarrow> dataFrame" where
  "response_sizes cfg rs0 =
     (let rs1 = (if COMMAND_CRC_ENABLE cfg
                 then rs0\<lparr>Bytes_max := Bytes_max rs0 + CRC_BYTEWIDTH cfg\<rparr> else rs0);
          rs2 = (case COMMAND_ENCODING cfg of
                   ENCODING_ESCS \<Rightarrow> rs1\<lparr>Bytes_max := Bytes_max rs1 + 2\<rparr>
                 | ENCODING_COBS \<Rightarrow> rs1\<lparr>Bytes_max := Bytes_max rs1 + 3\<rparr>
                 | ENCODING_RN \<Rightarrow> rs1\<lparr>Bytes_max := Bytes_max rs1 + 2\<rparr>
                 | ENCODING_NONE \<Rightarrow> rs1);
          rs3 = rs2\<lparr>Bytes_max := align_up cfg (Bytes_max rs2)\<rparr>
      in if COMMAND_ENCODING cfg = ENCODING_ESCS
         then rs3\<lparr>Bytes_max := Bytes_max rs3 * 2\<rparr> else rs3)"

text \<open>
  The halving of \<^verbatim>\<open>Bytes_max\<close> for ESCS at the end of \<^verbatim>\<open>lasso_hostRegisterMEM\<close>.
\<close>

definition halve_for_ESCS :: "encoding \<Rightarrow> dataFrame \<Rightarrow> dataFrame" where
  "halve_for_ESCS enc f =
     (if enc = ENCODING_ESCS then f\<lparr>Bytes_max := Bytes_max f div 2\<rparr> else f)"

text \<open>
  \<^verbatim>\<open>int32_t lasso_hostRegisterMEM (void)\<close>. The three arguments are what the three calls
  of \<^verbatim>\<open>LASSO_HOST_MALLOC\<close> return, in the order of the source (strobe buffer, response
  buffer, receive buffer): \<open>None\<close> for \<^verbatim>\<open>NULL\<close>, else the content of the fresh memory.
  With an external strobe source the strobe buffer is not allocated.
\<close>

definition lasso_hostRegisterMEM ::
  "config \<Rightarrow> u8 list option \<Rightarrow> u8 list option \<Rightarrow> u8 list option \<Rightarrow> host \<Rightarrow> s32 \<times> host" where
  "lasso_hostRegisterMEM cfg strobe_mem response_mem receive_mem s =
     (let mb = (if STROBE_DYNAMIC cfg then mask_bytes (dataCellCount s) else dataCellMaskBytes s);
          st = strobe_sizes cfg mb (strobe s);
          rs = response_sizes cfg (response s);
          st1 = (if STROBE_EXTERNAL_SOURCE cfg then st else st\<lparr>buffer := strobe_mem\<rparr>);
          s1 = s\<lparr>dataCellMaskBytes := mb, strobe := st1, response := rs\<rparr>
      in if \<not> STROBE_EXTERNAL_SOURCE cfg \<and> strobe_mem = None then (ENOMEM, s1)
         else
           (let s2 = s1\<lparr>response := rs\<lparr>buffer := response_mem\<rparr>\<rparr>
            in if response_mem = None then (ENOMEM, s2)
               else
                 (let s3 = s2\<lparr>receiveBuffer := receive_mem\<rparr>
                  in if receive_mem = None then (ENOMEM, s3)
                     else (0, s3\<lparr>strobe := halve_for_ESCS (STROBE_ENCODING cfg) (strobe s3),
                                 response := halve_for_ESCS (COMMAND_ENCODING cfg) (response s3)\<rparr>))))"

subsection \<open>lasso_hostReceiveByte\<close>

text \<open>
  A dereference of \<^verbatim>\<open>receiveBuffer\<close> while it is still \<^verbatim>\<open>NULL\<close> is the one fault
  of the receive path.
\<close>

datatype fault = NULL_DEREFERENCE

definition CR :: u8 where "CR = 0x0D"
definition NL :: u8 where "NL = 0x0A"

text \<open>
  \<^verbatim>\<open>int32_t lasso_hostReceiveByte (uint8_t b)\<close>. The result is the fault, or the returned
  error code with the state after the call. The three branches on
  \<^verbatim>\<open>LASSO_HOST_COMMAND_ENCODING\<close> are the three \<^verbatim>\<open>#if\<close> branches of the source (the
  last one, \<^verbatim>\<open>#else // ESCS\<close>, is taken for every encoding other than RN and COBS).
\<close>

definition lasso_hostReceiveByte :: "config \<Rightarrow> u8 \<Rightarrow> host \<Rightarrow> fault + (s32 \<times> host)" where
  "lasso_hostReceiveByte cfg b s =
     (if unat (receiveBufferIndex s) < COMMAND_BUFFER_SIZE cfg then
        (if COMMAND_ENCODING cfg = ENCODING_RN then
           (if b = NL \<and> receiveBufferIndex s = 0 then Inr (ENODATA, s)
            else
              (case receiveBuffer s of
                 None \<Rightarrow> Inl NULL_DEREFERENCE
               | Some rb \<Rightarrow>
                   if b = NL then
                     (if rb ! (unat (receiveBufferIndex s) - 1) = CR
                      then Inr (0, s\<lparr>response := (response s)\<lparr>valid := receiveBufferIndex s\<rparr>,
                                      receiveBufferIndex := 0\<rparr>)
                      else Inr (EILSEQ, s\<lparr>receiveBufferIndex := 0\<rparr>))
                   else if valid (response s) = 0 then
                     Inr (0, s\<lparr>receiveBuffer := Some (rb[unat (receiveBufferIndex s) := b]),
                                receiveBufferIndex := receiveBufferIndex s + 1,
                                receiveTimeout := COMMAND_TIMEOUT_TICKS cfg\<rparr>)
                   else Inr (ENOSPC, s\<lparr>receiveBufferIndex := 0\<rparr>)))
         else if valid (response s) = 0 then
           (case receiveBuffer s of
              None \<Rightarrow> Inl NULL_DEREFERENCE
            | Some rb \<Rightarrow>
                if COMMAND_ENCODING cfg = ENCODING_COBS then
                  (case COBS_decode_inline b rb (of_nat (COMMAND_BUFFER_SIZE cfg)) (COBS_ctrl s) of
                     (r, rb1, ctrl1) \<Rightarrow>
                       Inr (0, s\<lparr>response := (response s)\<lparr>valid := r\<rparr>,
                                  receiveBuffer := Some rb1, COBS_ctrl := ctrl1\<rparr>))
                else
                  (case ESCS_decode_inline b rb (of_nat (COMMAND_BUFFER_SIZE cfg)) (ESCS_ctrl s) of
                     (r, rb1, ctrl1) \<Rightarrow>
                       Inr (0, s\<lparr>response := (response s)\<lparr>valid := r\<rparr>,
                                  receiveBuffer := Some rb1, ESCS_ctrl := ctrl1\<rparr>)))
         else Inr (ENOSPC, s))
      else Inr (EOVERFLOW, s\<lparr>receiveBufferIndex := 0\<rparr>))"

text \<open>
  A sequence of received bytes: the codes returned by the calls, in order, and the final
  state; a fault ends the run.
\<close>

fun receive_bytes :: "config \<Rightarrow> u8 list \<Rightarrow> host \<Rightarrow> fault + (s32 list \<times> host)" where
  "receive_bytes cfg [] s = Inr ([], s)"
| "receive_bytes cfg (b # bs) s =
     (case lasso_hostReceiveByte cfg b s of
        Inl f \<Rightarrow> Inl f
      | Inr (r, s1) \<Rightarrow>
          (case receive_bytes cfg bs s1 of
             Inl f \<Rightarrow> Inl f
           | Inr (rs, s2) \<Rightarrow> Inr (r # rs, s2)))"

subsection \<open>lasso_hostInterpreteCommand\<close>

text \<open>
  The interpreter reads the command with \<^verbatim>\<open>sscanf\<close> (ASCII mode) or the MessagePack
  reader and writes the reply with \<^verbatim>\<open>sprintf\<close> or the MessagePack writer. These
  libraries are outside the model. A received command is the record of what the readers
  return for it: the opcode (\<open>None\<close> when no opcode can be read, in which case the source
  does nothing more), the error code of opening the parameter array (MessagePack; 0 in
  ASCII mode), and for each kind of parameter either the error code the source sets
  (\<open>Inl\<close>) or the value read (\<open>Inr\<close>).
\<close>

record command =
  opcode :: "u32 option"
  args_error :: s32
  cell_number :: "s32 + u8"
  strobe_period :: "s32 + u16"
  flag :: "s32 + u32"
  bool_flag :: "s32 + bool"

text \<open>
  What the interpreter hands to the writer: the echoed opcode, the payload of a GET
  command (\<open>None\<close> for the tiny reply), and the error code.
\<close>

datatype payload =
    PROTOCOL_INFO
  | TIMING_INFO
  | DATACELL_COUNT u8
  | DATACELL_PARAMS dataCell u32
  | DATACELL_VALUE dataCell

record reply =
  reply_opcode :: u32
  reply_payload :: "payload option"
  reply_error :: s32

datatype outcome = NO_REPLY | REPLY reply

definition tiny_reply :: "u32 \<Rightarrow> s32 \<Rightarrow> outcome" where
  "tiny_reply opc err = REPLY \<lparr>reply_opcode = opc, reply_payload = None, reply_error = err\<rparr>"

definition full_reply :: "u32 \<Rightarrow> payload \<Rightarrow> outcome" where
  "full_reply opc pl = REPLY \<lparr>reply_opcode = opc, reply_payload = Some pl, reply_error = 0\<rparr>"

text \<open>A transmit request as \<^verbatim>\<open>comCallback\<close> receives it: the bytes at the pointer and the count.\<close>

datatype frame_id = STROBE_FRAME | RESPONSE_FRAME

record tx =
  tx_frame :: frame_id
  tx_bytes :: "u8 list"
  tx_count :: u32

text \<open>
  The collaborators of the host that are outside lasso_host.c: the user callbacks
  (\<^verbatim>\<open>comCallback\<close>, \<^verbatim>\<open>crcCallback\<close>, \<^verbatim>\<open>perCallback\<close>, which is \<open>None\<close> when not
  registered), the readers and writers of the wire format, the value store of
  \<^verbatim>\<open>lasso_hostSetDatacellValue\<close> (its error code; the written memory belongs to the
  application), and the sampler \<^verbatim>\<open>lasso_hostSampleDataCells\<close>, which copies application
  memory into the strobe buffer. \<^verbatim>\<open>actCallback\<close> and \<^verbatim>\<open>ctlCallback\<close> return nothing and
  do not touch the host's variables; they do not appear in the model.
\<close>

record env =
  comCallback :: "tx \<Rightarrow> s32"
  crcCallback :: "u8 list \<Rightarrow> u32"
  perCallback :: "(u16 \<Rightarrow> u16) option"
  parse_command :: "u8 list \<Rightarrow> command"
  format_reply :: "reply \<Rightarrow> u8 list"
  SetDatacellValue :: "u8 list \<Rightarrow> dataCell \<Rightarrow> s32"
  SampleDataCells :: "host \<Rightarrow> host"

definition OP_SET_ADVERTISE :: u32 where "OP_SET_ADVERTISE = 0x41"
definition OP_SET_STROBE_PERIOD :: u32 where "OP_SET_STROBE_PERIOD = 0x50"
definition OP_SET_DATACELL_STROBE :: u32 where "OP_SET_DATACELL_STROBE = 0x53"
definition OP_SET_DATACELL_VALUE :: u32 where "OP_SET_DATACELL_VALUE = 0x56"
definition OP_SET_DATASPACE_STROBE :: u32 where "OP_SET_DATASPACE_STROBE = 0x57"
definition OP_GET_PROTOCOL_INFO :: u32 where "OP_GET_PROTOCOL_INFO = 0x69"
definition OP_GET_TIMING_INFO :: u32 where "OP_GET_TIMING_INFO = 0x74"
definition OP_GET_DATACELL_COUNT :: u32 where "OP_GET_DATACELL_COUNT = 0x6E"
definition OP_GET_DATACELL_PARAMS :: u32 where "OP_GET_DATACELL_PARAMS = 0x70"
definition OP_GET_DATACELL_VALUE :: u32 where "OP_GET_DATACELL_VALUE = 0x76"

text \<open>
  \<^verbatim>\<open>LASSO_HOST_STROBE_ENCODING < LASSO_ENCODING_COBS\<close>: strobes and replies cannot
  interleave.
\<close>

definition no_interleave :: "config \<Rightarrow> bool" where
  "no_interleave cfg \<longleftrightarrow> encoding_code (STROBE_ENCODING cfg) < encoding_code ENCODING_COBS"

text \<open>
  The type codes for which \<^verbatim>\<open>lasso_copyDatacellValue\<close> and the MessagePack value switch
  have a case. (With an external strobe source, \<^verbatim>\<open>lasso_copyDatacellValue\<close> prints 0 for
  a cell without memory, whatever its type.)
\<close>

definition value_type_known :: "u16 \<Rightarrow> bool" where
  "value_type_known ty \<longleftrightarrow>
     ty AND 0x00FE \<in> {0x00, 0x10, 0x20, 0x30, 0x22, 0x32, 0x24, 0x34, 0x44, 0x48}"

text \<open>
  The case \<^verbatim>\<open>LASSO_HOST_SET_DATACELL_STROBE\<close> from the point where the cell has been
  found and the flag read: the new \<^verbatim>\<open>strobe.Bytes_total\<close> and the new type of the cell.
\<close>

definition set_cell_strobe :: "bool \<Rightarrow> dataCell \<Rightarrow> u32 \<Rightarrow> u32 \<times> dataCell" where
  "set_cell_strobe bparam dC tot =
     (let lparam = (if cell_type dC AND LASSO_DATACELL_BYTEWIDTH_MASK = 0 then 1
                    else ucast (cell_type dC AND LASSO_DATACELL_BYTEWIDTH_MASK))
      in if bparam then
           (if cell_type dC AND LASSO_DATACELL_ENABLE_MASK = 0
            then (tot + ucast (cell_count dC) * lparam,
                  dC\<lparr>cell_type := cell_type dC OR LASSO_DATACELL_ENABLE_MASK\<rparr>)
            else (tot, dC))
         else
           (if cell_type dC AND LASSO_DATACELL_ENABLE_MASK \<noteq> 0
            then (tot - ucast (cell_count dC) * lparam,
                  dC\<lparr>cell_type := cell_type dC AND LASSO_DATACELL_DISABLE_MASK\<rparr>)
            else (tot, dC)))"

text \<open>
  The body of the interpreter for a command whose opcode has been read: the
  \<^verbatim>\<open>switch (opcode)\<close> with the guard in front of it. \<open>NO_REPLY\<close> stands for the
  \<^verbatim>\<open>return\<close> statements, \<open>REPLY\<close> for the \<^verbatim>\<open>break\<close>s that lead to the reply being
  written.
\<close>

definition interprete_opcode :: "config \<Rightarrow> env \<Rightarrow> u8 list \<Rightarrow> command \<Rightarrow> u32 \<Rightarrow> host \<Rightarrow> host \<times> outcome" where
  "interprete_opcode cfg e rb cmd opc s =
     (if no_interleave cfg \<and> lasso_strobing s \<and> opc \<ge> 0x61 then (s, NO_REPLY)
      else if opc = OP_GET_PROTOCOL_INFO then (s, full_reply opc PROTOCOL_INFO)
      else if opc = OP_GET_TIMING_INFO then (s, full_reply opc TIMING_INFO)
      else if opc = OP_GET_DATACELL_COUNT then (s, full_reply opc (DATACELL_COUNT (dataCellCount s)))
      else if opc = OP_GET_DATACELL_PARAMS then
        (case cell_number cmd of
           Inl err \<Rightarrow> (s, tiny_reply opc err)
         | Inr cparam \<Rightarrow>
             (case lasso_hostSeekDatacell s cparam of
                (Some dC, lparam) \<Rightarrow> (s, full_reply opc (DATACELL_PARAMS dC lparam))
              | (None, lparam) \<Rightarrow> (s, tiny_reply opc EFAULT)))
      else if opc = OP_GET_DATACELL_VALUE then
        (case cell_number cmd of
           Inl err \<Rightarrow> (s, tiny_reply opc err)
         | Inr cparam \<Rightarrow>
             (case lasso_hostSeekDatacell s cparam of
                (Some dC, lparam) \<Rightarrow>
                  if value_type_known (cell_type dC) \<or>
                     (PROCESSING_MODE cfg = ASCII_MODE \<and> STROBE_EXTERNAL_SOURCE cfg \<and> cell_ptr_null dC)
                  then (s, full_reply opc (DATACELL_VALUE dC))
                  else (s, tiny_reply opc (if PROCESSING_MODE cfg = MSGPACK_MODE then 134 else EINVAL))
              | (None, lparam) \<Rightarrow> (s, tiny_reply opc EFAULT)))
      else if opc = OP_SET_ADVERTISE then
        (s\<lparr>lasso_advertise := True, lasso_strobing := False\<rparr>, NO_REPLY)
      else if opc = OP_SET_STROBE_PERIOD then
        (case strobe_period cmd of
           Inl err \<Rightarrow> (s, tiny_reply opc err)
         | Inr sparam \<Rightarrow>
             if STROBE_PERIOD_MIN_TICKS cfg \<le> sparam \<and> sparam \<le> STROBE_PERIOD_MAX_TICKS cfg then
               (let period = (case perCallback e of Some f \<Rightarrow> f sparam | None \<Rightarrow> sparam);
                    s1 = s\<lparr>lasso_strobe_period := period\<rparr>;
                    s2 = (if countdown (strobe s1) > period
                          then s1\<lparr>strobe := (strobe s1)\<lparr>countdown := period\<rparr>\<rparr> else s1)
                in if lasso_advertise s2 then (s2, NO_REPLY)
                   else if no_interleave cfg \<and> lasso_strobing s2 then (s2, NO_REPLY)
                   else (s2, tiny_reply opc 0))
             else (s, tiny_reply opc EINVAL))
      else if opc = OP_SET_DATASPACE_STROBE then
        (case flag cmd of
           Inl err \<Rightarrow> (s, tiny_reply opc err)
         | Inr lparam \<Rightarrow>
             (let s1 = (if lparam \<noteq> 0
                        then (if \<not> lasso_strobing s
                              then s\<lparr>strobe := (strobe s)\<lparr>countdown := 1\<rparr>\<rparr> else s)
                               \<lparr>lasso_strobing := True\<rparr>
                        else s\<lparr>lasso_strobing := False\<rparr>)
              in if lasso_advertise s1
                 then (s1\<lparr>strobe := (strobe s1)\<lparr>Byte_count := 0\<rparr>, lasso_advertise := False\<rparr>,
                       NO_REPLY)
                 else if no_interleave cfg then (s1, NO_REPLY)
                 else (s1, tiny_reply opc 0)))
      else if opc = OP_SET_DATACELL_STROBE then
        (if lasso_strobing s then (s, NO_REPLY)
         else
           (case cell_number cmd of
              Inl err \<Rightarrow> (s, tiny_reply opc err)
            | Inr cparam \<Rightarrow>
                (case lasso_hostSeekDatacell s cparam of
                   (Some dC, lparam) \<Rightarrow>
                     (case bool_flag cmd of
                        Inl err \<Rightarrow> (s, tiny_reply opc err)
                      | Inr bparam \<Rightarrow>
                          (case set_cell_strobe bparam dC (Bytes_total (strobe s)) of
                             (tot, dC1) \<Rightarrow>
                               (let s1 = s\<lparr>strobe := (strobe s)\<lparr>Bytes_total := tot\<rparr>,
                                           dataCells := (dataCells s)[unat cparam := dC1]\<rparr>
                                in if lasso_advertise s1 then (s1, NO_REPLY)
                                   else (s1, tiny_reply opc 0))))
                 | (None, lparam) \<Rightarrow> (s, tiny_reply opc EFAULT))))
      else if opc = OP_SET_DATACELL_VALUE then
        (case cell_number cmd of
           Inl err \<Rightarrow> (s, tiny_reply opc err)
         | Inr cparam \<Rightarrow>
             (let msg_err =
                    (case lasso_hostSeekDatacell s cparam of
                       (Some dC, lparam) \<Rightarrow>
                         if cell_type dC AND LASSO_DATACELL_WRITEABLE \<noteq> 0
                         then SetDatacellValue e rb dC else EACCES
                     | (None, lparam) \<Rightarrow> EFAULT)
              in if lasso_advertise s then (s, NO_REPLY)
                 else if no_interleave cfg \<and> lasso_strobing s then (s, NO_REPLY)
                 else (s, tiny_reply opc msg_err)))
      else (s, tiny_reply opc EOPNOTSUPP))"

text \<open>
  Where the payload starts in a frame buffer: behind the two COBS header bytes, in the
  upper half for ESCS, at the start otherwise.
\<close>

definition payload_offset :: "encoding \<Rightarrow> dataFrame \<Rightarrow> nat" where
  "payload_offset enc f =
     (case enc of
        ENCODING_COBS \<Rightarrow> 2
      | ENCODING_ESCS \<Rightarrow> unat (Bytes_max f)
      | _ \<Rightarrow> 0)"

text \<open>Writing a byte sequence into memory from an offset on; bytes behind the end are dropped.\<close>

definition write_bytes :: "u8 list \<Rightarrow> nat \<Rightarrow> u8 list \<Rightarrow> u8 list" where
  "write_bytes m off bs = take (length m) (take off m @ bs @ drop (off + length bs) m)"

text \<open>Reading a byte; behind the end of the memory the model reads 0.\<close>

definition read_byte :: "u8 list \<Rightarrow> nat \<Rightarrow> u8" where
  "read_byte m i = (if i < length m then m ! i else 0)"

definition buffer_mem :: "dataFrame \<Rightarrow> u8 list" where
  "buffer_mem f = (case buffer f of Some m \<Rightarrow> m | None \<Rightarrow> [])"

text \<open>
  \<^verbatim>\<open>static void lasso_hostInterpreteCommand (void)\<close>. The command is what the readers
  make of the first \<^verbatim>\<open>response.valid\<close> bytes of the receive buffer. The function clears
  \<^verbatim>\<open>response.Bytes_total\<close> and marks the response buffer as not yet encoded
  (\<^verbatim>\<open>0xFF\<close> for COBS, \<^verbatim>\<open>0\<close> for ESCS); when a reply is written, its bytes (with the
  \<^verbatim>\<open>\\r\\n\<close> of RN and the CRC bytes, where configured) are placed at the payload offset
  and counted in \<^verbatim>\<open>response.Bytes_total\<close>. The CRC bytes are the low
  \<^verbatim>\<open>LASSO_HOST_CRC_BYTEWIDTH\<close> bytes of the callback's value, least significant first.
  Bytes that the writers leave in the response buffer before a \<^verbatim>\<open>return\<close> without reply
  are not modelled.
\<close>

definition crc_bytes :: "config \<Rightarrow> u32 \<Rightarrow> u8 list" where
  "crc_bytes cfg crc = map (\<lambda>i. ucast (drop_bit (8 * i) crc)) [0..<unat (CRC_BYTEWIDTH cfg)]"

definition write_reply :: "config \<Rightarrow> env \<Rightarrow> reply \<Rightarrow> host \<Rightarrow> host" where
  "write_reply cfg e r s =
     (let body = format_reply e r;
          body1 = (if COMMAND_ENCODING cfg = ENCODING_RN then body @ [CR, NL] else body);
          body2 = (if COMMAND_ENCODING cfg \<noteq> ENCODING_RN \<and> COMMAND_CRC_ENABLE cfg
                   then body1 @ crc_bytes cfg (crcCallback e body1) else body1);
          rs = response s
      in s\<lparr>response := rs\<lparr>buffer := map_option (\<lambda>m. write_bytes m (payload_offset (COMMAND_ENCODING cfg) rs) body2)
                                           (buffer rs),
                            Bytes_total := of_nat (length body2)\<rparr>\<rparr>)"

definition receive_mem :: "host \<Rightarrow> u8 list" where
  "receive_mem s = (case receiveBuffer s of Some m \<Rightarrow> m | None \<Rightarrow> [])"

definition received_command :: "env \<Rightarrow> host \<Rightarrow> command" where
  "received_command e s = parse_command e (take (unat (valid (response s))) (receive_mem s))"

definition interprete_begin :: "config \<Rightarrow> host \<Rightarrow> host" where
  "interprete_begin cfg s =
     (let rb1 = (if PROCESSING_MODE cfg = ASCII_MODE
                 then (receive_mem s)[unat (valid (response s)) := 0] else receive_mem s);
          rs = response s;
          mark = (\<lambda>m. case COMMAND_ENCODING cfg of
                          ENCODING_COBS \<Rightarrow> m[0 := 0xFF]
                        | ENCODING_ESCS \<Rightarrow> m[0 := 0]
                        | _ \<Rightarrow> m)
      in s\<lparr>receiveBuffer := map_option (\<lambda>m. rb1) (receiveBuffer s),
            response := rs\<lparr>Bytes_total := 0, buffer := map_option mark (buffer rs)\<rparr>\<rparr>)"

definition lasso_hostInterpreteCommand :: "config \<Rightarrow> env \<Rightarrow> host \<Rightarrow> host" where
  "lasso_hostInterpreteCommand cfg e s =
     (let cmd = received_command e s;
          s0 = interprete_begin cfg s
      in case opcode cmd of
           None \<Rightarrow> s0
         | Some opc \<Rightarrow>
             if args_error cmd \<noteq> 0
             then write_reply cfg e
                    \<lparr>reply_opcode = opc, reply_payload = None, reply_error = args_error cmd\<rparr> s0
             else
               (case interprete_opcode cfg e (receive_mem s0) cmd opc s0 of
                  (s1, NO_REPLY) \<Rightarrow> s1
                | (s1, REPLY r) \<Rightarrow> write_reply cfg e r s1))"

subsection \<open>lasso_hostTransmitDataFrame\<close>

definition get_frame :: "frame_id \<Rightarrow> host \<Rightarrow> dataFrame" where
  "get_frame which s = (case which of STROBE_FRAME \<Rightarrow> strobe s | RESPONSE_FRAME \<Rightarrow> response s)"

definition put_frame :: "frame_id \<Rightarrow> dataFrame \<Rightarrow> host \<Rightarrow> host" where
  "put_frame which f s =
     (case which of STROBE_FRAME \<Rightarrow> s\<lparr>strobe := f\<rparr> | RESPONSE_FRAME \<Rightarrow> s\<lparr>response := f\<rparr>)"

text \<open>
  The memory the \<^verbatim>\<open>frame\<close> pointer of a data frame points into, and storing it back. A
  \<^verbatim>\<open>NULL\<close> buffer is an empty memory here; \<^verbatim>\<open>lasso_hostHandleCOM\<close> runs the transmit
  path only after \<^verbatim>\<open>lasso_hostRegisterMEM\<close> has allocated the buffers.
\<close>

definition frame_memory :: "host \<Rightarrow> dataFrame \<Rightarrow> u8 list" where
  "frame_memory s f =
     (case frame_region f of IN_SIGNATURE \<Rightarrow> lasso_signature s | IN_BUFFER \<Rightarrow> buffer_mem f)"

definition put_memory :: "frame_id \<Rightarrow> u8 list \<Rightarrow> host \<Rightarrow> host" where
  "put_memory which m s =
     (let f = get_frame which s
      in case frame_region f of
           IN_SIGNATURE \<Rightarrow> s\<lparr>lasso_signature := m\<rparr>
         | IN_BUFFER \<Rightarrow> put_frame which (f\<lparr>buffer := map_option (\<lambda>_. m) (buffer f)\<rparr>) s)"

text \<open>
  The condition under which the source encodes a frame before sending it:
  \<^verbatim>\<open>ptr == &response\<close> when command and strobe encoding differ, \<^verbatim>\<open>!lasso_advertise\<close>
  when they are the same.
\<close>

definition encoder_gate :: "config \<Rightarrow> frame_id \<Rightarrow> host \<Rightarrow> bool" where
  "encoder_gate cfg which s =
     (if COMMAND_ENCODING cfg \<noteq> STROBE_ENCODING cfg then which = RESPONSE_FRAME
      else \<not> lasso_advertise s)"

text \<open>
  One call of \<^verbatim>\<open>comCallback(frame, cnt)\<close> with the update that follows it: unless the
  callback returns \<^verbatim>\<open>EBUSY\<close>, the frame pointer advances by \<open>adv\<close> and
  \<^verbatim>\<open>Byte_count\<close> drops by \<open>adv\<close>. The third component lists the calls of the callback.
\<close>

definition send_chunk :: "env \<Rightarrow> frame_id \<Rightarrow> u32 \<Rightarrow> u32 \<Rightarrow> host \<Rightarrow> bool \<times> host \<times> tx list" where
  "send_chunk e which cnt adv s =
     (let f = get_frame which s;
          req = \<lparr>tx_frame = which,
                 tx_bytes = take (unat cnt) (drop (frame f) (frame_memory s f)),
                 tx_count = cnt\<rparr>
      in if comCallback e req \<noteq> EBUSY
         then (True,
               put_frame which (f\<lparr>frame := frame f + unat adv, Byte_count := Byte_count f - adv\<rparr>) s,
               [req])
         else (False, s, [req]))"

text \<open>
  The COBS branch up to the call of the callback: restore the third byte, save the 256th,
  encode \<open>num\<close> payload bytes in place, unless the first byte is already the delimiter.
  When the buffer has no room for the encoding (the C code would write behind it) the
  memory is left as it is.
\<close>

definition cobs_prepare :: "frame_id \<Rightarrow> u32 \<Rightarrow> bool \<Rightarrow> host \<Rightarrow> host" where
  "cobs_prepare which num extended s =
     (let f = get_frame which s;
          m = frame_memory s f
      in if read_byte m (frame f) \<noteq> 0x00 then
           (let m1 = m[frame f + 2 := COBS_backup f];
                backup = read_byte m1 (frame f + 255);
                m2 = (case COBS_encode (drop (frame f) m1) (ucast num) extended of
                        Some w \<Rightarrow> take (frame f) m1 @ w
                      | None \<Rightarrow> m1)
            in put_memory which m2 (put_frame which (f\<lparr>COBS_backup := backup\<rparr>) s))
         else s)"

text \<open>
  The ESCS branch: encode \<open>num\<close> bytes from the upper half of the buffer
  (\<^verbatim>\<open>frame + Bytes_max\<close>) to the frame pointer, unless the first byte is already the
  delimiter; the encoded length becomes \<^verbatim>\<open>Byte_count\<close>. The encoder reads each source
  byte before the write position reaches it, so the encoding is that of the source bytes
  as they were.
\<close>

definition escs_prepare :: "frame_id \<Rightarrow> host \<Rightarrow> host" where
  "escs_prepare which s =
     (let f = get_frame which s;
          m = frame_memory s f
      in if read_byte m (frame f) \<noteq> 0x7E then
           (let enc = ESCS_encode (take (unat (Byte_count f)) (drop (frame f + unat (Bytes_max f)) m))
            in put_memory which (write_bytes m (frame f) enc)
                 (put_frame which (f\<lparr>Byte_count := of_nat (length enc)\<rparr>) s))
         else s)"

text \<open>
  \<^verbatim>\<open>static bool lasso_hostTransmitDataFrame (dataFrame* ptr)\<close>: the returned flag, the
  state after the call, and the calls of \<^verbatim>\<open>comCallback\<close> that it made.
\<close>

definition lasso_hostTransmitDataFrame :: "config \<Rightarrow> env \<Rightarrow> frame_id \<Rightarrow> host \<Rightarrow> bool \<times> host \<times> tx list" where
  "lasso_hostTransmitDataFrame cfg e which s =
     (let num = Byte_count (get_frame which s)
      in if num > 0 then
           (if COMMAND_ENCODING cfg = ENCODING_COBS \<and> encoder_gate cfg which s then
              (let extended = (num > 253);
                   num1 = (if num > 253 then 253 else num)
               in send_chunk e which (num1 + 3) num1 (cobs_prepare which num1 extended s))
            else
              (let s1 = (if COMMAND_ENCODING cfg = ENCODING_ESCS \<and> encoder_gate cfg which s
                         then escs_prepare which s else s);
                   num1 = Byte_count (get_frame which s1);
                   num2 = (if num1 > MAX_FRAME_SIZE cfg then MAX_FRAME_SIZE cfg else num1)
               in send_chunk e which num2 num2 s1))
         else (False, s, []))"

subsection \<open>lasso_hostHandleCOM\<close>

text \<open>The receive timeout at the head of the handler.\<close>

definition handle_timeout :: "host \<Rightarrow> host" where
  "handle_timeout s =
     (if receiveTimeout s > 0 then
        (let s1 = s\<lparr>receiveTimeout := receiveTimeout s - 1\<rparr>
         in if receiveTimeout s1 = 0 then s1\<lparr>receiveBufferIndex := 0\<rparr> else s1)
      else s)"

text \<open>
  The advertise and strobe part of the handler: while advertising, the signature is loaded
  each time the countdown expires; while strobing, the cells are sampled and the strobe
  buffer is loaded, or overdrive is flagged when the last strobe is still being sent.
\<close>

definition handle_strobe :: "config \<Rightarrow> env \<Rightarrow> host \<Rightarrow> host" where
  "handle_strobe cfg e s =
     (if lasso_advertise s then
        (let st = (strobe s)\<lparr>countdown := countdown (strobe s) - 1\<rparr>
         in if countdown st = 0
            then s\<lparr>strobe := st\<lparr>countdown := lasso_advertise_period_ticks s,
                                 frame_region := IN_SIGNATURE, frame := 0,
                                 Byte_count := 16\<rparr>\<rparr>
            else s\<lparr>strobe := st\<rparr>)
      else if lasso_strobing s then
        (let st = (if STROBE_EXTERNAL_SYNC cfg then strobe s
                   else (strobe s)\<lparr>countdown := countdown (strobe s) - 1\<rparr>)
         in if countdown st = 0 then
              (let st1 = st\<lparr>countdown := lasso_strobe_period s\<rparr>
               in if Byte_count st1 > 0
                  then s\<lparr>strobe := st1\<lparr>valid := 0\<rparr>, lasso_overdrive := 1\<rparr>
                  else
                    (let s1 = SampleDataCells e (s\<lparr>strobe := st1\<rparr>);
                         st2 = (strobe s1)\<lparr>frame_region := IN_BUFFER, frame := 0,
                                          Byte_count := Bytes_total (strobe s1)\<rparr>;
                         st3 = (if STROBE_ENCODING cfg = ENCODING_COBS
                                then st2\<lparr>COBS_backup := read_byte (buffer_mem st2) 2\<rparr> else st2)
                     in s1\<lparr>strobe := st3\<rparr>))
            else s\<lparr>strobe := st\<rparr>)
      else s)"

text \<open>
  The response part of the handler. With command CRC enabled, a command whose CRC is not
  zero sends the source into \<^verbatim>\<open>while(1);\<close>: the handler never returns, which is the
  value \<open>None\<close>.
\<close>

definition LASSO_HOST_SET_CONTROLS :: u8 where
  "LASSO_HOST_SET_CONTROLS = 0xC1"

definition handle_response :: "config \<Rightarrow> env \<Rightarrow> host \<Rightarrow> host option" where
  "handle_response cfg e s =
     (let rs = (response s)\<lparr>countdown := countdown (response s) - 1\<rparr>
      in if countdown rs = 0 then
           (let rs1 = rs\<lparr>countdown := RESPONSE_LATENCY_TICKS cfg\<rparr>;
                s1 = s\<lparr>response := rs1\<rparr>;
                rb = receive_mem s1
            in if Byte_count rs1 = 0 \<and> valid rs1 > 0 then
                 (if COMMAND_CRC_ENABLE cfg \<and> crcCallback e (take (unat (valid rs1)) rb) \<noteq> 0
                  then None
                  else
                    (let s2 = (if read_byte rb 0 = LASSO_HOST_SET_CONTROLS then s1
                               else
                                 (let s3 = lasso_hostInterpreteCommand cfg e s1;
                                      rs3 = (response s3)\<lparr>frame_region := IN_BUFFER, frame := 0,
                                                           Byte_count := Bytes_total (response s3)\<rparr>;
                                      rs4 = (if COMMAND_ENCODING cfg = ENCODING_COBS
                                             then rs3\<lparr>COBS_backup := read_byte (buffer_mem rs3) 2\<rparr>
                                             else rs3)
                                  in s3\<lparr>response := rs4\<rparr>))
                     in Some (s2\<lparr>response := (response s2)\<lparr>valid := 0\<rparr>\<rparr>)))
               else Some s1)
         else Some (s\<lparr>response := rs\<rparr>))"

text \<open>
  The transmit step at the end of the handler: the response frame when
  \<^verbatim>\<open>strobe.Byte_count == 0\<close>, else the strobe frame.
\<close>

definition handle_transmit :: "config \<Rightarrow> env \<Rightarrow> host \<Rightarrow> host \<times> tx list" where
  "handle_transmit cfg e s =
     (case (if Byte_count (strobe s) = 0
            then lasso_hostTransmitDataFrame cfg e RESPONSE_FRAME s
            else lasso_hostTransmitDataFrame cfg e STROBE_FRAME s) of
        (sent, s1, txs) \<Rightarrow> (s1, txs))"

text \<open>
  \<^verbatim>\<open>void lasso_hostHandleCOM (void)\<close>, one tick: the state after the call with the calls
  of \<^verbatim>\<open>comCallback\<close> made during it, or \<open>None\<close> when the call does not return.
\<close>

definition lasso_hostHandleCOM :: "config \<Rightarrow> env \<Rightarrow> host \<Rightarrow> (host \<times> tx list) option" where
  "lasso_hostHandleCOM cfg e s =
     (if receiveBuffer s = None then Some (s, [])
      else
        (case handle_response cfg e (handle_strobe cfg e (handle_timeout s)) of
           None \<Rightarrow> None
         | Some s3 \<Rightarrow>
             (case handle_transmit cfg e s3 of
                (s4, txs) \<Rightarrow>
                  Some (if TIMESTAMP cfg then s4\<lparr>lasso_timestamp := lasso_timestamp s4 + 1\<rparr> else s4,
                        txs))))"

text \<open>
  The state in which the transmit step of a tick runs, and whether the strobe frame has
  bytes pending there.
\<close>

definition before_transmit :: "config \<Rightarrow> env \<Rightarrow> host \<Rightarrow> host option" where
  "before_transmit cfg e s = handle_response cfg e (handle_strobe cfg e (handle_timeout s))"

definition strobe_pending_at_transmit :: "config \<Rightarrow> env \<Rightarrow> host \<Rightarrow> bool" where
  "strobe_pending_at_transmit cfg e s =
     (case before_transmit cfg e s of
        Some s3 \<Rightarrow> Byte_count (strobe s3) \<noteq> 0
      | None \<Rightarrow> False)"

section \<open>The properties in the words of the specification\<close>

text \<open>
  The type code of a cell, read as the specification reads it: bit 0 is the enable bit and
  bits 1 to 3 hold the byte width, where 0 stands for one byte.
\<close>

definition cell_enabled :: "dataCell \<Rightarrow> bool" where
  "cell_enabled dC \<longleftrightarrow> cell_type dC AND LASSO_DATACELL_ENABLE \<noteq> 0"

definition cell_permanent :: "dataCell \<Rightarrow> bool" where
  "cell_permanent dC \<longleftrightarrow> cell_type dC AND LASSO_DATACELL_PERMANENT \<noteq> 0"

definition byte_width :: "dataCell \<Rightarrow> nat" where
  "byte_width dC = unat (cell_type dC AND LASSO_DATACELL_BYTEWIDTH_MASK)"

text \<open>
  The strobe footprint of a cell, \<open>count \<times> max(byte_width, 1)\<close>, and what a cell
  contributes to the strobe: its footprint when enabled, nothing otherwise.
\<close>

definition cell_size :: "dataCell \<Rightarrow> nat" where
  "cell_size dC = unat (cell_count dC) * max (byte_width dC) 1"

definition cell_footprint :: "dataCell \<Rightarrow> nat" where
  "cell_footprint dC = (if cell_enabled dC then cell_size dC else 0)"

text \<open>
  The strobe size law: the sum of the footprints of the enabled cells, plus the mask bytes
  in dynamic mode, plus the CRC width when the strobe CRC is enabled, plus 1 when the
  strobe is byte-stuffed. \<^verbatim>\<open>strobe.Bytes_total\<close> is a \<^verbatim>\<open>uint32_t\<close>.
\<close>

definition active_Bytes :: "dataCell list \<Rightarrow> nat" where
  "active_Bytes cells = sum_list (map cell_footprint cells)"

definition strobe_overhead :: "config \<Rightarrow> host \<Rightarrow> nat" where
  "strobe_overhead cfg s =
     (if STROBE_DYNAMIC cfg then unat (dataCellMaskBytes s) else 0) +
     (if STROBE_CRC_ENABLE cfg then unat (CRC_BYTEWIDTH cfg) else 0) +
     (if STROBE_ENCODING cfg = ENCODING_COBS \<or> STROBE_ENCODING cfg = ENCODING_ESCS then 1 else 0)"

definition strobe_size_law :: "config \<Rightarrow> host \<Rightarrow> bool" where
  "strobe_size_law cfg s \<longleftrightarrow>
     Bytes_total (strobe s) = of_nat (active_Bytes (dataCells s) + strobe_overhead cfg s)"

text \<open>
  The operations that change the data space: a registration (with what the allocator
  returns and the arguments of the call) and a received command. A run applies them in
  order. A registration fails in the chain when it returns \<^verbatim>\<open>EFAULT\<close>.
\<close>

datatype operation =
    REGISTER "dataCell option" u16 u16 bool u16
  | COMMAND command

fun run_operation :: "config \<Rightarrow> env \<Rightarrow> operation \<Rightarrow> host \<Rightarrow> host" where
  "run_operation cfg e (REGISTER fresh ty cnt ptr_null rate) s =
     snd (lasso_hostRegisterDataCell cfg fresh ty cnt ptr_null rate s)"
| "run_operation cfg e (COMMAND cmd) s =
     lasso_hostInterpreteCommand cfg (e\<lparr>parse_command := (\<lambda>bs. cmd)\<rparr>) s"

fun registration_faulted :: "config \<Rightarrow> operation \<Rightarrow> host \<Rightarrow> bool" where
  "registration_faulted cfg (REGISTER fresh ty cnt ptr_null rate) s =
     (fst (lasso_hostRegisterDataCell cfg fresh ty cnt ptr_null rate s) = EFAULT)"
| "registration_faulted cfg (COMMAND cmd) s = False"

fun run_operations :: "config \<Rightarrow> env \<Rightarrow> operation list \<Rightarrow> host \<Rightarrow> host" where
  "run_operations cfg e [] s = s"
| "run_operations cfg e (x # xs) s = run_operations cfg e xs (run_operation cfg e x s)"

fun any_registration_faulted :: "config \<Rightarrow> env \<Rightarrow> operation list \<Rightarrow> host \<Rightarrow> bool" where
  "any_registration_faulted cfg e [] s = False"
| "any_registration_faulted cfg e (x # xs) s =
     (registration_faulted cfg x s \<or> any_registration_faulted cfg e xs (run_operation cfg e x s))"

text \<open>
  How far \<^verbatim>\<open>strobe.Bytes_total\<close> lies above the footprints of the enabled cells, in the
  arithmetic of \<^verbatim>\<open>uint32_t\<close>.
\<close>

definition law_gap :: "host \<Rightarrow> u32" where
  "law_gap s = Bytes_total (strobe s) - of_nat (active_Bytes (dataCells s))"

section \<open>A configuration and collaborators for concrete runs\<close>

text \<open>The settings of the repository's lasso_host_config.h.\<close>

definition example_config :: config where
  "example_config =
     \<lparr>COMMAND_ENCODING = ENCODING_RN,
      STROBE_ENCODING = ENCODING_NONE,
      PROCESSING_MODE = ASCII_MODE,
      STROBE_DYNAMIC = False,
      CRC_BYTEWIDTH = 2,
      COMMAND_CRC_ENABLE = False,
      STROBE_CRC_ENABLE = True,
      COMMAND_BUFFER_SIZE = 16,
      RESPONSE_BUFFER_SIZE = 96,
      COMMAND_TIMEOUT_TICKS = 5,
      RESPONSE_LATENCY_TICKS = 5,
      ROUNDTRIP_LATENCY_TICKS = 7,
      ADVERTISE_PERIOD_TICKS = 25,
      STROBE_PERIOD_MIN_TICKS = 10,
      STROBE_PERIOD_MAX_TICKS = 65535,
      STROBE_PERIOD_TICKS = 10,
      STROBE_EXTERNAL_SYNC = False,
      STROBE_EXTERNAL_SOURCE = False,
      MAX_FRAME_SIZE = 4096,
      MEMORY_ALIGN = 4,
      TIMESTAMP = True,
      PROTOCOL_INFO_WORD = 257900321\<rparr>"

text \<open>
  A command as the ASCII readers return it: opcode, cell number, period and flag. The
  example collaborators read every received frame as the given command, accept every
  transmission, and write a reply as the opcode, a comma and the error digit.
\<close>

definition example_command :: "u32 \<Rightarrow> u8 \<Rightarrow> u32 \<Rightarrow> command" where
  "example_command opc cell fl =
     \<lparr>opcode = Some opc, args_error = 0, cell_number = Inr cell, strobe_period = Inr 10,
      flag = Inr fl, bool_flag = Inr (fl \<noteq> 0)\<rparr>"

definition example_env :: "command \<Rightarrow> env" where
  "example_env cmd =
     \<lparr>comCallback = (\<lambda>t. 0),
      crcCallback = (\<lambda>bs. 0),
      perCallback = None,
      parse_command = (\<lambda>bs. cmd),
      format_reply = (\<lambda>r. [ucast (reply_opcode r), 0x2C, 0x30 + ucast (reply_error r)]),
      SetDatacellValue = (\<lambda>bs dC. 0),
      SampleDataCells = (\<lambda>s. s)\<rparr>"

definition fresh_cell :: dataCell where
  "fresh_cell = \<lparr>cell_type = 0, cell_count = 0, cell_ptr_null = True, update_rate = 0\<rparr>"

text \<open>
  The host after one registration of a \<^verbatim>\<open>uint8_t\<close> cell of the given type bits and
  \<^verbatim>\<open>lasso_hostRegisterMEM\<close>, all allocations successful.
\<close>

definition example_host :: "u16 \<Rightarrow> host" where
  "example_host ty =
     snd (lasso_hostRegisterMEM example_config
            (Some (replicate 4 0)) (Some (replicate 100 0)) (Some (replicate 16 0))
            (snd (lasso_hostRegisterDataCell example_config (Some fresh_cell)
                    (LASSO_UINT8 OR ty) 1 False 1 (host_init example_config))))"

text \<open>
  Three cells in registration order: an enabled \<^verbatim>\<open>float\<close>, a disabled array of three
  \<^verbatim>\<open>uint16_t\<close> and an enabled array of four \<^verbatim>\<open>uint16_t\<close>.
\<close>

definition example_cells :: "dataCell list" where
  "example_cells =
     [\<lparr>cell_type = 0x0045, cell_count = 1, cell_ptr_null = False, update_rate = 65537\<rparr>,
      \<lparr>cell_type = 0x0022, cell_count = 3, cell_ptr_null = False, update_rate = 65537\<rparr>,
      \<lparr>cell_type = 0x0023, cell_count = 4, cell_ptr_null = False, update_rate = 65537\<rparr>]"

text \<open>
  The example host once a client has connected with \<^verbatim>\<open>W,0\<close>: advertising is off and
  strobing is off.
\<close>

definition example_connected :: "u16 \<Rightarrow> host" where
  "example_connected ty =
     lasso_hostInterpreteCommand example_config
       (example_env (example_command OP_SET_DATASPACE_STROBE 0 0)) (example_host ty)"

text \<open>
  A tick on which the advertise countdown expires, a tick on which a received
  \<^verbatim>\<open>n\<close> command is answered, and a tick on which an \<^verbatim>\<open>A\<close> command is interpreted
  while the 16 bytes of an advertise strobe are still waiting to be sent (the transport was
  busy on the tick before).
\<close>

definition example_tick_advertise :: host where
  "example_tick_advertise =
     (example_host 0)\<lparr>strobe := (strobe (example_host 0))\<lparr>countdown := 1\<rparr>\<rparr>"

definition example_tick_reply :: host where
  "example_tick_reply =
     (example_connected 0)
       \<lparr>receiveBuffer := Some ([0x6E, 0x0D] @ replicate 14 0),
        response := (response (example_connected 0))\<lparr>countdown := 1, valid := 2\<rparr>\<rparr>"

definition example_tick_set_advertise :: host where
  "example_tick_set_advertise =
     (example_host 0)
       \<lparr>receiveBuffer := Some ([0x41, 0x0D] @ replicate 14 0),
        strobe := (strobe (example_host 0))
                    \<lparr>countdown := 20, frame_region := IN_SIGNATURE, frame := 0, Byte_count := 16\<rparr>,
        response := (response (example_host 0))\<lparr>countdown := 1, valid := 2\<rparr>\<rparr>"

text \<open>The example host with the given bytes stored in its receive buffer.\<close>

definition example_received :: "u8 list \<Rightarrow> host" where
  "example_received bs =
     (example_host 0)\<lparr>receiveBuffer := Some (bs @ replicate (16 - length bs) 0),
                       receiveBufferIndex := of_nat (length bs)\<rparr>"

text \<open>
  Two registrations of an enabled \<^verbatim>\<open>uint8_t\<close> cell followed by
  \<^verbatim>\<open>lasso_hostRegisterMEM\<close>; the first registration passes \<^verbatim>\<open>ptr == NULL\<close>. The three
  definitions are the three calls with their return codes.
\<close>

definition example_register_null :: "s32 \<times> host" where
  "example_register_null =
     lasso_hostRegisterDataCell example_config (Some fresh_cell)
       (LASSO_UINT8 OR LASSO_DATACELL_ENABLE) 1 True 1 (host_init example_config)"

definition example_register_next :: "s32 \<times> host" where
  "example_register_next =
     lasso_hostRegisterDataCell example_config (Some fresh_cell)
       (LASSO_UINT8 OR LASSO_DATACELL_ENABLE) 1 False 1 (snd example_register_null)"

definition example_register_mem :: "s32 \<times> host" where
  "example_register_mem =
     lasso_hostRegisterMEM example_config
       (Some (replicate 4 0)) (Some (replicate 100 0)) (Some (replicate 16 0))
       (snd example_register_next)"

section \<open>Word arithmetic of the cell sizes\<close>

lemma byte_width_le: "byte_width dC \<le> 14"
proof -
  have "cell_type dC AND LASSO_DATACELL_BYTEWIDTH_MASK \<le> LASSO_DATACELL_BYTEWIDTH_MASK"
    by (rule word_and_le1)
  then have "unat (cell_type dC AND LASSO_DATACELL_BYTEWIDTH_MASK) \<le> unat LASSO_DATACELL_BYTEWIDTH_MASK"
    by (simp add: word_le_nat_alt)
  then show ?thesis
    by (simp add: byte_width_def LASSO_DATACELL_BYTEWIDTH_MASK_def)
qed

lemma cell_size_le: "cell_size dC \<le> 65535 * 14"
proof -
  have c: "unat (cell_count dC) \<le> 65535"
    using unsigned_less [of "cell_count dC", where ?'a = nat] by simp
  have "max (byte_width dC) 1 \<le> 14"
    using byte_width_le [of dC] by simp
  with c have "unat (cell_count dC) * max (byte_width dC) 1 \<le> 65535 * 14"
    by (rule mult_mono) simp_all
  then show ?thesis
    by (simp add: cell_size_def)
qed

lemma cell_footprint_le: "cell_footprint dC \<le> 65535 * 14"
  using cell_size_le [of dC] by (simp add: cell_footprint_def)

lemma cell_Bytes_size:
  "cell_Bytes (cell_type dC) (cell_count dC) = of_nat (cell_size dC)"
proof (cases "cell_type dC AND LASSO_DATACELL_BYTEWIDTH_MASK = 0")
  case True
  then show ?thesis
    by (simp add: cell_Bytes_def cell_size_def byte_width_def)
next
  case False
  then have "byte_width dC \<noteq> 0"
    by (simp add: byte_width_def unat_eq_0)
  then have "max (byte_width dC) 1 = byte_width dC"
    by simp
  with False show ?thesis
    by (simp add: cell_Bytes_def cell_size_def byte_width_def)
qed

lemma active_Bytes_take_bound:
  assumes "n \<le> 255"
  shows "active_Bytes (take n cells) < 2 ^ 32"
proof -
  have "sum_list (map cell_footprint xs) \<le> length xs * (65535 * 14)" for xs
  proof (induction xs)
    case Nil
    then show ?case by simp
  next
    case (Cons x xs)
    with cell_footprint_le [of x] show ?case by simp
  qed
  then have "active_Bytes (take n cells) \<le> length (take n cells) * (65535 * 14)"
    by (simp only: active_Bytes_def)
  also have "\<dots> \<le> 255 * (65535 * 14)"
    using assms by (intro mult_right_mono) simp_all
  finally show ?thesis by simp
qed

section \<open>lasso_hostCountdown\<close>

text \<open>
  Claim C9. For every count value, \<^verbatim>\<open>lasso_hostCountdown\<close> sets \<^verbatim>\<open>strobe.countdown\<close> to
  \<^verbatim>\<open>strobe.countdown - count\<close> when \<^verbatim>\<open>count <= strobe.countdown\<close> and to exactly 0
  otherwise: read as numbers, the new countdown is the old one minus the count, stopping
  at 0, so the 16-bit counter never wraps around below zero.
\<close>

theorem lasso_hostCountdown_saturates:
  "unat (countdown (strobe (lasso_hostCountdown cnt s))) =
     (if unat cnt \<le> unat (countdown (strobe s))
      then unat (countdown (strobe s)) - unat cnt else 0)"
  by (simp add: lasso_hostCountdown_def word_less_nat_alt word_le_nat_alt unat_sub)

theorem lasso_hostCountdown_saturates_witness:
  "unat (countdown (strobe (lasso_hostCountdown 3 (host_init example_config)))) = 7 \<and>
   unat (countdown (strobe (lasso_hostCountdown 11 (host_init example_config)))) = 0"
  using lasso_hostCountdown_saturates [of 3 "host_init example_config"]
        lasso_hostCountdown_saturates [of 11 "host_init example_config"]
  by (simp add: host_init_def example_config_def)

section \<open>lasso_hostSeekDatacell\<close>

lemma seek_loop_sum:
  "unat num < length cells \<Longrightarrow>
   seek_loop cells num pos =
     (Some (cells ! unat num), pos + of_nat (active_Bytes (take (unat num) cells)))"
proof (induction cells arbitrary: num pos)
  case Nil
  then show ?case by simp
next
  case (Cons dC rest)
  show ?case
  proof (cases "num = 0")
    case True
    then show ?thesis by (simp add: active_Bytes_def)
  next
    case False
    then have n: "unat num = Suc (unat (num - 1))"
      by (metis Suc_pred' unat_gt_0 unat_minus_one)
    with Cons.prems have "unat (num - 1) < length rest" by simp
    from Cons.IH [OF this] False n show ?thesis
      by (simp add: active_Bytes_def cell_footprint_def cell_enabled_def cell_Bytes_size add.assoc)
  qed
qed

lemma lasso_hostSeekDatacell_sum:
  assumes "unat num < length (dataCells s)"
  shows "lasso_hostSeekDatacell s num =
           (Some (dataCells s ! unat num), of_nat (active_Bytes (take (unat num) (dataCells s))))"
  using seek_loop_sum [OF assms, of 0] by (simp add: lasso_hostSeekDatacell_def)

lemma unat_active_Bytes_take:
  "unat (of_nat (active_Bytes (take (unat (num :: u8)) cells)) :: u32) =
     active_Bytes (take (unat num) cells)"
proof -
  have "unat num \<le> 255"
    using unsigned_less [of num, where ?'a = nat] by simp
  then have "active_Bytes (take (unat num) cells) < 2 ^ 32"
    by (rule active_Bytes_take_bound)
  then show ?thesis
    by (simp add: unat_of_nat)
qed

text \<open>
  Claim C5. For every index \<open>i\<close> below the number of cells in the chain,
  \<^verbatim>\<open>lasso_hostSeekDatacell(i)\<close> returns the \<open>i\<close>-th cell in registration order together with
  a byte offset equal to the sum of \<open>count \<times> max(byte_width, 1)\<close> over the enabled cells
  with indices \<open>0..i-1\<close> only (disabled preceding cells and the target cell contribute
  nothing); the sum does not overflow the \<^verbatim>\<open>uint32_t\<close>. The GetDataCellParams case of
  the interpreter hands this cell and this offset to the reply.
\<close>

theorem lasso_hostSeekDatacell_offset:
  assumes "unat num < length (dataCells s)"
  shows "fst (lasso_hostSeekDatacell s num) = Some (dataCells s ! unat num) \<and>
         unat (snd (lasso_hostSeekDatacell s num)) =
           (\<Sum>dC \<leftarrow> take (unat num) (dataCells s).
              if cell_enabled dC then unat (cell_count dC) * max (byte_width dC) 1 else 0) \<and>
         (cell_number cmd = Inr num \<and> \<not> (no_interleave cfg \<and> lasso_strobing s) \<longrightarrow>
            interprete_opcode cfg e rb cmd OP_GET_DATACELL_PARAMS s =
              (s, full_reply OP_GET_DATACELL_PARAMS
                    (DATACELL_PARAMS (dataCells s ! unat num) (snd (lasso_hostSeekDatacell s num)))))"
proof -
  have fp: "(\<Sum>dC \<leftarrow> xs. if cell_enabled dC then unat (cell_count dC) * max (byte_width dC) 1 else 0)
      = active_Bytes xs" for xs
    unfolding active_Bytes_def cell_footprint_def cell_size_def by (rule refl)
  note seek = lasso_hostSeekDatacell_sum [OF assms]
  have "interprete_opcode cfg e rb cmd OP_GET_DATACELL_PARAMS s =
              (s, full_reply OP_GET_DATACELL_PARAMS
                    (DATACELL_PARAMS (dataCells s ! unat num) (snd (lasso_hostSeekDatacell s num))))"
    if "cell_number cmd = Inr num" "\<not> (no_interleave cfg \<and> lasso_strobing s)"
    using that seek
    by (auto simp: interprete_opcode_def OP_GET_DATACELL_PARAMS_def OP_GET_PROTOCOL_INFO_def
        OP_GET_TIMING_INFO_def OP_GET_DATACELL_COUNT_def)
  with seek show ?thesis
    by (simp add: fp unat_active_Bytes_take)
qed

theorem lasso_hostSeekDatacell_offset_witness:
  "unat (2 :: u8) < length (dataCells (host_init example_config\<lparr>dataCells := example_cells\<rparr>)) \<and>
   fst (lasso_hostSeekDatacell (host_init example_config\<lparr>dataCells := example_cells\<rparr>) 2) =
     Some (example_cells ! 2) \<and>
   snd (lasso_hostSeekDatacell (host_init example_config\<lparr>dataCells := example_cells\<rparr>) 2) = 4 \<and>
   snd (interprete_opcode example_config (example_env (example_command OP_GET_DATACELL_PARAMS 2 0)) []
          (example_command OP_GET_DATACELL_PARAMS 2 0) OP_GET_DATACELL_PARAMS
          (host_init example_config\<lparr>dataCells := example_cells\<rparr>)) =
     full_reply OP_GET_DATACELL_PARAMS (DATACELL_PARAMS (example_cells ! 2) 4)"
proof -
  let ?s = "host_init example_config\<lparr>dataCells := example_cells\<rparr>"
  let ?cmd = "example_command OP_GET_DATACELL_PARAMS 2 0"
  have h: "unat (2 :: u8) < length (dataCells ?s)"
    by (simp add: example_cells_def)
  have footprints: "(\<Sum>dC \<leftarrow> take (unat (2 :: u8)) (dataCells ?s).
              if cell_enabled dC then unat (cell_count dC) * max (byte_width dC) 1 else 0) = 4"
    by (simp add: example_cells_def cell_enabled_def byte_width_def
        LASSO_DATACELL_ENABLE_def LASSO_DATACELL_BYTEWIDTH_MASK_def)
  have c: "cell_number ?cmd = Inr 2 \<and> \<not> (no_interleave example_config \<and> lasso_strobing ?s)"
    by (simp add: example_command_def host_init_def)
  note inst = lasso_hostSeekDatacell_offset [OF h, of ?cmd example_config "example_env ?cmd" "[]"]
  from inst footprints have u: "unat (snd (lasso_hostSeekDatacell ?s 2)) = 4"
    by simp
  have "snd (lasso_hostSeekDatacell ?s 2) = of_nat (unat (snd (lasso_hostSeekDatacell ?s 2)))"
    by simp
  with u have w: "snd (lasso_hostSeekDatacell ?s 2) = 4"
    by simp
  from inst c w h show ?thesis
    by simp
qed

section \<open>lasso_hostHandleCOM\<close>

text \<open>
  Claim C10. Before \<^verbatim>\<open>lasso_hostRegisterMEM\<close> has allocated the receive buffer
  (\<^verbatim>\<open>receiveBuffer\<close> is still \<^verbatim>\<open>NULL\<close>), every call of \<^verbatim>\<open>lasso_hostHandleCOM\<close> returns
  at once: the whole state (scheduler, strobe, response, timestamp) is unchanged and no
  transmission is attempted.
\<close>

theorem lasso_hostHandleCOM_before_RegisterMEM:
  "receiveBuffer s = None \<Longrightarrow> lasso_hostHandleCOM cfg e s = Some (s, [])"
  by (simp add: lasso_hostHandleCOM_def)

theorem lasso_hostHandleCOM_before_RegisterMEM_witness:
  "receiveBuffer (host_init example_config) = None \<and>
   lasso_hostHandleCOM example_config (example_env (example_command OP_SET_ADVERTISE 0 0))
     (host_init example_config) = Some (host_init example_config, [])"
proof -
  have h: "receiveBuffer (host_init example_config) = None"
    by (simp add: host_init_def)
  from h lasso_hostHandleCOM_before_RegisterMEM [OF h] show ?thesis
    by simp
qed

subsection \<open>The calls of the transmit callback\<close>

lemma send_chunk_calls:
  "send_chunk e which cnt adv s = (b, s1, txs) \<Longrightarrow> \<exists>t. txs = [t] \<and> tx_frame t = which"
  by (auto simp: send_chunk_def Let_def split: if_splits)

lemma TransmitDataFrame_calls:
  assumes "lasso_hostTransmitDataFrame cfg e which s = (b, s1, txs)"
  shows "(Byte_count (get_frame which s) = 0 \<longrightarrow> txs = []) \<and>
         (Byte_count (get_frame which s) \<noteq> 0 \<longrightarrow> (\<exists>t. txs = [t] \<and> tx_frame t = which))"
proof (cases "Byte_count (get_frame which s) = 0")
  case True
  with assms show ?thesis
    by (simp add: lasso_hostTransmitDataFrame_def)
next
  case False
  then have pos: "Byte_count (get_frame which s) > 0"
    by (simp add: word_greater_zero_iff)
  from assms pos have "\<exists>cnt adv s0. send_chunk e which cnt adv s0 = (b, s1, txs)"
    by (auto simp: lasso_hostTransmitDataFrame_def Let_def split: if_splits)
  then show ?thesis
    using False send_chunk_calls by blast
qed

lemma handle_transmit_calls:
  assumes "handle_transmit cfg e s = (s1, txs)"
  shows "(Byte_count (strobe s) \<noteq> 0 \<longrightarrow> (\<exists>t. txs = [t] \<and> tx_frame t = STROBE_FRAME)) \<and>
         (Byte_count (strobe s) = 0 \<and> Byte_count (response s) = 0 \<longrightarrow> txs = []) \<and>
         (Byte_count (strobe s) = 0 \<and> Byte_count (response s) \<noteq> 0 \<longrightarrow>
            (\<exists>t. txs = [t] \<and> tx_frame t = RESPONSE_FRAME))"
proof (cases "Byte_count (strobe s) = 0")
  case True
  obtain b where "lasso_hostTransmitDataFrame cfg e RESPONSE_FRAME s = (b, s1, txs)"
    using assms True by (auto simp: handle_transmit_def split: prod.splits)
  from TransmitDataFrame_calls [OF this] True show ?thesis
    by (simp add: get_frame_def)
next
  case False
  obtain b where "lasso_hostTransmitDataFrame cfg e STROBE_FRAME s = (b, s1, txs)"
    using assms False by (auto simp: handle_transmit_def split: prod.splits)
  from TransmitDataFrame_calls [OF this] False show ?thesis
    by (simp add: get_frame_def)
qed

subsection \<open>What the interpreter does to the two frames\<close>

lemma interprete_opcode_response:
  "interprete_opcode cfg e rb cmd opc s = (s1, out) \<Longrightarrow> response s1 = response s"
  by (auto simp: interprete_opcode_def Let_def split: if_splits sum.splits option.splits prod.splits)

lemma interprete_opcode_Byte_count:
  "interprete_opcode cfg e rb cmd opc s = (s1, out) \<Longrightarrow>
   Byte_count (strobe s1) = Byte_count (strobe s) \<or> out = NO_REPLY"
  by (auto simp: interprete_opcode_def Let_def split: if_splits sum.splits option.splits prod.splits)

lemma write_reply_strobe: "strobe (write_reply cfg e r s) = strobe s"
  by (simp add: write_reply_def Let_def)

lemma interprete_begin_frames:
  "strobe (interprete_begin cfg s) = strobe s"
  "Bytes_total (response (interprete_begin cfg s)) = 0"
  by (simp_all add: interprete_begin_def Let_def)

lemma InterpreteCommand_Byte_count:
  "Byte_count (strobe (lasso_hostInterpreteCommand cfg e s)) = Byte_count (strobe s) \<or>
   Bytes_total (response (lasso_hostInterpreteCommand cfg e s)) = 0"
proof -
  define cmd where "cmd = received_command e s"
  define s0 where "s0 = interprete_begin cfg s"
  have s0: "strobe s0 = strobe s" "Bytes_total (response s0) = 0"
    by (simp_all add: s0_def interprete_begin_frames)
  show ?thesis
  proof (cases "opcode cmd")
    case None
    with s0 show ?thesis
      by (simp add: lasso_hostInterpreteCommand_def cmd_def s0_def)
  next
    case (Some opc)
    show ?thesis
    proof (cases "args_error cmd \<noteq> 0")
      case True
      with Some s0 show ?thesis
        by (simp add: lasso_hostInterpreteCommand_def cmd_def [symmetric] s0_def [symmetric]
            write_reply_strobe)
    next
      case False
      obtain s1 out where io: "interprete_opcode cfg e (receive_mem s0) cmd opc s0 = (s1, out)"
        by (cases "interprete_opcode cfg e (receive_mem s0) cmd opc s0")
      from interprete_opcode_response [OF io] interprete_opcode_Byte_count [OF io] s0
      have "Byte_count (strobe s1) = Byte_count (strobe s) \<or>
            (out = NO_REPLY \<and> Bytes_total (response s1) = 0)"
        by auto
      with Some False io show ?thesis
        by (cases out)
           (auto simp: lasso_hostInterpreteCommand_def cmd_def [symmetric] s0_def [symmetric]
              write_reply_strobe)
    qed
  qed
qed

lemma handle_timeout_strobe: "strobe (handle_timeout s) = strobe s"
  by (simp add: handle_timeout_def Let_def)

lemma handle_strobe_pending:
  "Byte_count (strobe s) \<noteq> 0 \<Longrightarrow> Byte_count (strobe (handle_strobe cfg e s)) \<noteq> 0"
  by (auto simp: handle_strobe_def Let_def word_greater_zero_iff)

lemma handle_response_pending:
  assumes "handle_response cfg e s = Some s1" and "Byte_count (strobe s) \<noteq> 0"
  shows "Byte_count (strobe s1) \<noteq> 0 \<or> Byte_count (response s1) = 0"
proof -
  define s' where "s' = s\<lparr>response := (response s)\<lparr>countdown := RESPONSE_LATENCY_TICKS cfg\<rparr>\<rparr>"
  define si where "si = lasso_hostInterpreteCommand cfg e s'"
  have st: "strobe s' = strobe s"
    by (simp add: s'_def)
  from InterpreteCommand_Byte_count [of cfg e s'] st assms(2)
  have disj: "Byte_count (strobe si) \<noteq> 0 \<or> Bytes_total (response si) = 0"
    by (auto simp: si_def)
  from assms disj show ?thesis
    by (auto simp: handle_response_def Let_def s'_def si_def split: if_splits)
qed

text \<open>
  Claim C7. On every invocation of \<^verbatim>\<open>lasso_hostHandleCOM\<close> (one tick) that returns, at
  most one transmit attempt (call of \<^verbatim>\<open>comCallback\<close>) is made; it targets the strobe
  frame whenever \<^verbatim>\<open>strobe.Byte_count\<close> is non-zero, be it on entry to the tick or at the
  transmit step; so the response frame is transmitted only on ticks where the strobe has
  no pending bytes. Behind the \<^verbatim>\<open>receiveBuffer\<close> check, a strobe with pending bytes at the
  transmit step gets exactly one attempt.
\<close>

theorem lasso_hostHandleCOM_one_transmit_strobe_first:
  assumes "map_option snd (lasso_hostHandleCOM cfg e s) = Some txs"
  shows "length txs \<le> 1 \<and>
         (\<forall>t \<in> set txs. Byte_count (strobe s) \<noteq> 0 \<or> strobe_pending_at_transmit cfg e s
              \<longrightarrow> tx_frame t = STROBE_FRAME) \<and>
         (\<forall>t \<in> set txs. tx_frame t = RESPONSE_FRAME
              \<longrightarrow> Byte_count (strobe s) = 0 \<and> \<not> strobe_pending_at_transmit cfg e s) \<and>
         (receiveBuffer s \<noteq> None \<and> strobe_pending_at_transmit cfg e s \<longrightarrow> length txs = 1)"
proof (cases "receiveBuffer s = None")
  case True
  with assms show ?thesis
    by (auto simp: lasso_hostHandleCOM_def)
next
  case False
  with assms obtain s3 s4 where
    bt: "before_transmit cfg e s = Some s3" and ht: "handle_transmit cfg e s3 = (s4, txs)"
    by (auto simp: lasso_hostHandleCOM_def before_transmit_def split: option.splits prod.splits)
  note calls = handle_transmit_calls [OF ht]
  have pa: "strobe_pending_at_transmit cfg e s \<longleftrightarrow> Byte_count (strobe s3) \<noteq> 0"
    using bt by (simp add: strobe_pending_at_transmit_def)
  have len: "length txs \<le> 1"
    using calls by (cases "Byte_count (strobe s3) = 0"; cases "Byte_count (response s3) = 0") auto
  have pend: "Byte_count (strobe s3) \<noteq> 0 \<or> Byte_count (response s3) = 0"
    if "Byte_count (strobe s) \<noteq> 0"
  proof -
    from that have "Byte_count (strobe (handle_strobe cfg e (handle_timeout s))) \<noteq> 0"
      by (intro handle_strobe_pending) (simp add: handle_timeout_strobe)
    with bt show ?thesis
      unfolding before_transmit_def by (rule handle_response_pending)
  qed
  have strobe_first: "tx_frame t = STROBE_FRAME"
    if "t \<in> set txs" "Byte_count (strobe s) \<noteq> 0 \<or> Byte_count (strobe s3) \<noteq> 0" for t
    using calls pend that
    by (cases "Byte_count (strobe s3) = 0"; cases "Byte_count (response s3) = 0") auto
  have one: "length txs = 1" if "Byte_count (strobe s3) \<noteq> 0"
    using calls that by auto
  have resp: "Byte_count (strobe s) = 0 \<and> Byte_count (strobe s3) = 0"
    if "t \<in> set txs" "tx_frame t = RESPONSE_FRAME" for t
    using strobe_first [OF that(1)] that(2) by auto
  from len strobe_first one resp show ?thesis
    unfolding pa by blast
qed

theorem lasso_hostHandleCOM_one_transmit_strobe_first_witness:
  "map_option snd (lasso_hostHandleCOM example_config
      (example_env (example_command OP_SET_ADVERTISE 0 0)) example_tick_advertise) =
     Some [\<lparr>tx_frame = STROBE_FRAME, tx_bytes = signature_bytes 257900321, tx_count = 16\<rparr>] \<and>
   strobe_pending_at_transmit example_config
      (example_env (example_command OP_SET_ADVERTISE 0 0)) example_tick_advertise \<and>
   map_option snd (lasso_hostHandleCOM example_config
      (example_env (example_command OP_GET_DATACELL_COUNT 0 0)) example_tick_reply) =
     Some [\<lparr>tx_frame = RESPONSE_FRAME, tx_bytes = [0x6E, 0x2C, 0x30, 0x0D, 0x0A], tx_count = 5\<rparr>] \<and>
   Byte_count (strobe example_tick_reply) = 0 \<and>
   \<not> strobe_pending_at_transmit example_config
      (example_env (example_command OP_GET_DATACELL_COUNT 0 0)) example_tick_reply"
proof -
  let ?eA = "example_env (example_command OP_SET_ADVERTISE 0 0)"
  let ?eN = "example_env (example_command OP_GET_DATACELL_COUNT 0 0)"
  let ?txA = "\<lparr>tx_frame = STROBE_FRAME, tx_bytes = signature_bytes 257900321, tx_count = 16\<rparr>"
  let ?txN = "\<lparr>tx_frame = RESPONSE_FRAME, tx_bytes = [0x6E, 0x2C, 0x30, 0x0D, 0x0A], tx_count = 5\<rparr>"
  have a: "map_option snd (lasso_hostHandleCOM example_config ?eA example_tick_advertise) = Some [?txA]"
    by code_simp
  have pa: "strobe_pending_at_transmit example_config ?eA example_tick_advertise"
    by code_simp
  have n: "map_option snd (lasso_hostHandleCOM example_config ?eN example_tick_reply) = Some [?txN]"
    by code_simp
  from lasso_hostHandleCOM_one_transmit_strobe_first [OF n]
  have "Byte_count (strobe example_tick_reply) = 0 \<and>
        \<not> strobe_pending_at_transmit example_config ?eN example_tick_reply"
    by simp
  with lasso_hostHandleCOM_one_transmit_strobe_first [OF a] a pa n show ?thesis
    by simp
qed

section \<open>The command interpreter\<close>

lemma InterpreteCommand_opcode:
  assumes "opcode (received_command e s) = Some opc" and "args_error (received_command e s) = 0"
  shows "lasso_hostInterpreteCommand cfg e s =
           (case interprete_opcode cfg e (receive_mem (interprete_begin cfg s))
                   (received_command e s) opc (interprete_begin cfg s) of
              (s1, NO_REPLY) \<Rightarrow> s1
            | (s1, REPLY r) \<Rightarrow> write_reply cfg e r s1)"
  using assms by (simp add: lasso_hostInterpreteCommand_def Let_def)

lemma interprete_begin_flags:
  "lasso_advertise (interprete_begin cfg s) = lasso_advertise s"
  "lasso_strobing (interprete_begin cfg s) = lasso_strobing s"
  "dataCells (interprete_begin cfg s) = dataCells s"
  by (simp_all add: interprete_begin_def Let_def)

lemma write_reply_flags:
  "lasso_advertise (write_reply cfg e r s) = lasso_advertise s"
  "lasso_strobing (write_reply cfg e r s) = lasso_strobing s"
  "dataCells (write_reply cfg e r s) = dataCells s"
  by (simp_all add: write_reply_def Let_def)

text \<open>
  Claim C6, as the code has it. Processing a SetAdvertise (\<^verbatim>\<open>A\<close>) command sets advertise
  on and strobing off and leaves the strobe frame, \<^verbatim>\<open>strobe.Byte_count\<close> included, as it
  was. It is a SetDataSpaceStrobe (\<^verbatim>\<open>W\<close>) command processed while advertising that
  cancels an advertise strobe in flight: it sets \<^verbatim>\<open>strobe.Byte_count\<close> to zero and
  advertise off.
\<close>

theorem SetAdvertise_keeps_strobe_frame:
  assumes "args_error (received_command e s) = 0"
  shows "(opcode (received_command e s) = Some OP_SET_ADVERTISE \<longrightarrow>
            lasso_advertise (lasso_hostInterpreteCommand cfg e s) \<and>
            \<not> lasso_strobing (lasso_hostInterpreteCommand cfg e s) \<and>
            strobe (lasso_hostInterpreteCommand cfg e s) = strobe s) \<and>
         (opcode (received_command e s) = Some OP_SET_DATASPACE_STROBE \<and>
          flag (received_command e s) = Inr v \<and> lasso_advertise s \<longrightarrow>
            Byte_count (strobe (lasso_hostInterpreteCommand cfg e s)) = 0 \<and>
            \<not> lasso_advertise (lasso_hostInterpreteCommand cfg e s))"
proof (intro conjI impI)
  assume opc: "opcode (received_command e s) = Some OP_SET_ADVERTISE"
  have io: "interprete_opcode cfg e rb cmd OP_SET_ADVERTISE s0 =
              (s0\<lparr>lasso_advertise := True, lasso_strobing := False\<rparr>, NO_REPLY)" for rb cmd s0
    by (simp add: interprete_opcode_def OP_SET_ADVERTISE_def OP_GET_DATACELL_PARAMS_def
        OP_GET_PROTOCOL_INFO_def OP_GET_TIMING_INFO_def OP_GET_DATACELL_COUNT_def
        OP_GET_DATACELL_VALUE_def)
  have eq: "lasso_hostInterpreteCommand cfg e s =
              (interprete_begin cfg s)\<lparr>lasso_advertise := True, lasso_strobing := False\<rparr>"
    by (simp add: InterpreteCommand_opcode [OF opc assms] io)
  show "lasso_advertise (lasso_hostInterpreteCommand cfg e s)"
    and "\<not> lasso_strobing (lasso_hostInterpreteCommand cfg e s)"
    and "strobe (lasso_hostInterpreteCommand cfg e s) = strobe s"
    by (simp_all add: eq interprete_begin_frames)
next
  assume w: "opcode (received_command e s) = Some OP_SET_DATASPACE_STROBE \<and>
             flag (received_command e s) = Inr v \<and> lasso_advertise s"
  define s0 where "s0 = interprete_begin cfg s"
  define s1 where "s1 = (if v \<noteq> 0
                        then (if \<not> lasso_strobing s0
                              then s0\<lparr>strobe := (strobe s0)\<lparr>countdown := 1\<rparr>\<rparr> else s0)
                               \<lparr>lasso_strobing := True\<rparr>
                        else s0\<lparr>lasso_strobing := False\<rparr>)"
  have adv: "lasso_advertise s1"
    using w by (simp add: s1_def s0_def interprete_begin_flags)
  have io: "interprete_opcode cfg e (receive_mem s0) (received_command e s) OP_SET_DATASPACE_STROBE s0 =
              (s1\<lparr>strobe := (strobe s1)\<lparr>Byte_count := 0\<rparr>, lasso_advertise := False\<rparr>, NO_REPLY)"
    using w adv
    by (simp add: interprete_opcode_def Let_def s1_def [symmetric]
        OP_SET_DATASPACE_STROBE_def OP_SET_ADVERTISE_def OP_SET_STROBE_PERIOD_def
        OP_GET_DATACELL_PARAMS_def OP_GET_PROTOCOL_INFO_def OP_GET_TIMING_INFO_def
        OP_GET_DATACELL_COUNT_def OP_GET_DATACELL_VALUE_def)
  have eq: "lasso_hostInterpreteCommand cfg e s =
              s1\<lparr>strobe := (strobe s1)\<lparr>Byte_count := 0\<rparr>, lasso_advertise := False\<rparr>"
    using w by (simp add: InterpreteCommand_opcode [OF _ assms] io s0_def [symmetric])
  show "Byte_count (strobe (lasso_hostInterpreteCommand cfg e s)) = 0"
    and "\<not> lasso_advertise (lasso_hostInterpreteCommand cfg e s)"
    by (simp_all add: eq)
qed

theorem SetAdvertise_keeps_strobe_frame_witness:
  "args_error (received_command (example_env (example_command OP_SET_ADVERTISE 0 0))
      example_tick_set_advertise) = 0 \<and>
   opcode (received_command (example_env (example_command OP_SET_ADVERTISE 0 0))
      example_tick_set_advertise) = Some OP_SET_ADVERTISE \<and>
   strobe (lasso_hostInterpreteCommand example_config
      (example_env (example_command OP_SET_ADVERTISE 0 0)) example_tick_set_advertise) =
     strobe example_tick_set_advertise \<and>
   lasso_advertise example_tick_set_advertise \<and>
   Byte_count (strobe example_tick_set_advertise) = 16 \<and>
   Byte_count (strobe (lasso_hostInterpreteCommand example_config
      (example_env (example_command OP_SET_DATASPACE_STROBE 0 1)) example_tick_set_advertise)) = 0"
proof -
  let ?eA = "example_env (example_command OP_SET_ADVERTISE 0 0)"
  let ?eW = "example_env (example_command OP_SET_DATASPACE_STROBE 0 1)"
  have a: "args_error (received_command ?eA example_tick_set_advertise) = 0"
    and oa: "opcode (received_command ?eA example_tick_set_advertise) = Some OP_SET_ADVERTISE"
    and w: "args_error (received_command ?eW example_tick_set_advertise) = 0"
    and ow: "opcode (received_command ?eW example_tick_set_advertise) = Some OP_SET_DATASPACE_STROBE"
    and fw: "flag (received_command ?eW example_tick_set_advertise) = Inr 1"
    by (simp_all add: received_command_def example_env_def example_command_def)
  have adv: "lasso_advertise example_tick_set_advertise"
    and cnt: "Byte_count (strobe example_tick_set_advertise) = 16"
    by code_simp+
  from SetAdvertise_keeps_strobe_frame [OF a, where cfg = example_config and v = 0]
       SetAdvertise_keeps_strobe_frame [OF w, where cfg = example_config and v = 1]
       a oa ow fw adv cnt
  show ?thesis
    by simp
qed

text \<open>
  The claim as stated fails where an advertise strobe is in flight: after the \<^verbatim>\<open>A\<close>
  command has been interpreted the 16 bytes are still pending, and the transmit step of the
  same tick sends them.
\<close>

theorem SetAdvertise_cancels_counterexample:
  "Byte_count (strobe example_tick_set_advertise) = 16 \<and>
   Byte_count (strobe (lasso_hostInterpreteCommand example_config
      (example_env (example_command OP_SET_ADVERTISE 0 0)) example_tick_set_advertise)) = 16 \<and>
   map_option snd (lasso_hostHandleCOM example_config
      (example_env (example_command OP_SET_ADVERTISE 0 0)) example_tick_set_advertise) =
     Some [\<lparr>tx_frame = STROBE_FRAME, tx_bytes = signature_bytes 257900321, tx_count = 16\<rparr>]"
  by code_simp

section \<open>The data space under registrations and commands\<close>

lemma active_Bytes_append: "active_Bytes (xs @ [dC]) = active_Bytes xs + cell_footprint dC"
  by (simp add: active_Bytes_def)

lemma active_Bytes_update:
  assumes "i < length cells"
  shows "active_Bytes (cells[i := dC]) + cell_footprint (cells ! i) = active_Bytes cells + cell_footprint dC"
  using assms
proof (induction cells arbitrary: i)
  case Nil
  then show ?case by simp
next
  case (Cons x xs)
  then show ?case
    by (cases i) (auto simp: active_Bytes_def)
qed

lemma seek_loop_Some:
  "seek_loop cells num pos = (Some dC, p) \<Longrightarrow> unat num < length cells \<and> dC = cells ! unat num"
proof (induction cells arbitrary: num pos)
  case Nil
  then show ?case by simp
next
  case (Cons x xs)
  show ?case
  proof (cases "num = 0")
    case True
    with Cons.prems show ?thesis by simp
  next
    case False
    then have n: "unat num = Suc (unat (num - 1))"
      by (metis Suc_pred' unat_gt_0 unat_minus_one)
    from Cons.prems False obtain pos' where "seek_loop xs (num - 1) pos' = (Some dC, p)"
      by (auto split: if_splits)
    from Cons.IH [OF this] n show ?thesis by simp
  qed
qed

lemma RegisterDataCell_law_gap:
  assumes "lasso_hostRegisterDataCell cfg fresh ty cnt ptr_null rate s = (r, s')" and "r \<noteq> EFAULT"
  shows "law_gap s' = law_gap s \<and> dataCellMaskBytes s' = dataCellMaskBytes s"
proof (cases fresh)
  case None
  with assms show ?thesis by (simp add: lasso_hostRegisterDataCell_def)
next
  case (Some raw)
  define ty1 where "ty1 = (if STROBE_EXTERNAL_SOURCE cfg then ty OR LASSO_DATACELL_PERMANENT else ty)"
  define ty2 where "ty2 = (if ty1 AND LASSO_DATACELL_PERMANENT \<noteq> 0
                      then ty1 OR LASSO_DATACELL_ENABLE else ty1)"
  define dC2 where "dC2 = raw\<lparr>cell_type := ty2, cell_count := cnt, cell_ptr_null := ptr_null,
                                update_rate := (if STROBE_DYNAMIC cfg
                                                then push_bit 16 (ucast rate) + ucast rate
                                                else push_bit 16 1 + 1)\<rparr>"
  have fp: "of_nat (cell_footprint dC2) =
      (if ty2 AND LASSO_DATACELL_ENABLE_MASK \<noteq> 0 then cell_Bytes ty2 cnt else (0 :: u32))"
    using cell_Bytes_size [of dC2]
    by (simp add: cell_footprint_def cell_enabled_def dC2_def LASSO_DATACELL_ENABLE_MASK_def
        LASSO_DATACELL_ENABLE_def)
  from assms Some have nf: "\<not> (\<not> STROBE_EXTERNAL_SOURCE cfg \<and> ptr_null)"
    by (auto simp: lasso_hostRegisterDataCell_def Let_def EFAULT_def)
  with assms Some have s': "dataCells s' = dataCells s @ [dC2]"
     "Bytes_total (strobe s') = Bytes_total (strobe s) +
         (if ty2 AND LASSO_DATACELL_ENABLE_MASK \<noteq> 0 then cell_Bytes ty2 cnt else 0)"
     "dataCellMaskBytes s' = dataCellMaskBytes s"
    by (auto simp: lasso_hostRegisterDataCell_def Let_def ty1_def ty2_def dC2_def)
  then show ?thesis
    by (simp add: law_gap_def active_Bytes_append fp [symmetric])
qed


lemma enable_bit_set:
  "cell_enabled (dC\<lparr>cell_type := cell_type dC OR LASSO_DATACELL_ENABLE_MASK\<rparr>)"
  "byte_width (dC\<lparr>cell_type := cell_type dC OR LASSO_DATACELL_ENABLE_MASK\<rparr>) = byte_width dC"
  "cell_permanent (dC\<lparr>cell_type := cell_type dC OR LASSO_DATACELL_ENABLE_MASK\<rparr>) = cell_permanent dC"
  by (simp_all add: cell_enabled_def byte_width_def cell_permanent_def LASSO_DATACELL_ENABLE_MASK_def
      LASSO_DATACELL_ENABLE_def LASSO_DATACELL_BYTEWIDTH_MASK_def LASSO_DATACELL_PERMANENT_def
      bit.conj_disj_distrib2)

lemma enable_bit_cleared:
  "\<not> cell_enabled (dC\<lparr>cell_type := cell_type dC AND LASSO_DATACELL_DISABLE_MASK\<rparr>)"
  "byte_width (dC\<lparr>cell_type := cell_type dC AND LASSO_DATACELL_DISABLE_MASK\<rparr>) = byte_width dC"
  "cell_permanent (dC\<lparr>cell_type := cell_type dC AND LASSO_DATACELL_DISABLE_MASK\<rparr>) = cell_permanent dC"
  by (simp_all add: cell_enabled_def byte_width_def cell_permanent_def LASSO_DATACELL_DISABLE_MASK_def
      LASSO_DATACELL_ENABLE_def LASSO_DATACELL_BYTEWIDTH_MASK_def LASSO_DATACELL_PERMANENT_def
      and.assoc)

lemma set_cell_strobe_amount:
  "(if cell_type dC AND LASSO_DATACELL_BYTEWIDTH_MASK = 0 then ucast (cell_count dC) * 1
    else ucast (cell_count dC) * ucast (cell_type dC AND LASSO_DATACELL_BYTEWIDTH_MASK)) =
   (of_nat (cell_size dC) :: u32)"
  using cell_Bytes_size [of dC]
  by (cases "cell_type dC AND LASSO_DATACELL_BYTEWIDTH_MASK = 0") (simp_all add: cell_Bytes_def)

lemma set_cell_strobe_enable:
  assumes "\<not> cell_enabled dC"
  shows "set_cell_strobe True dC t =
           (t + of_nat (cell_size dC), dC\<lparr>cell_type := cell_type dC OR LASSO_DATACELL_ENABLE_MASK\<rparr>)"
  using assms set_cell_strobe_amount [of dC]
  by (simp add: set_cell_strobe_def Let_def cell_enabled_def LASSO_DATACELL_ENABLE_def
      LASSO_DATACELL_ENABLE_MASK_def split: if_splits)

lemma set_cell_strobe_disable:
  assumes "cell_enabled dC"
  shows "set_cell_strobe False dC t =
           (t - of_nat (cell_size dC), dC\<lparr>cell_type := cell_type dC AND LASSO_DATACELL_DISABLE_MASK\<rparr>)"
  using assms set_cell_strobe_amount [of dC]
  by (simp add: set_cell_strobe_def Let_def cell_enabled_def LASSO_DATACELL_ENABLE_def
      LASSO_DATACELL_ENABLE_MASK_def split: if_splits)

lemma set_cell_strobe_same:
  "cell_enabled dC \<Longrightarrow> set_cell_strobe True dC t = (t, dC)"
  "\<not> cell_enabled dC \<Longrightarrow> set_cell_strobe False dC t = (t, dC)"
  by (simp_all add: set_cell_strobe_def Let_def cell_enabled_def LASSO_DATACELL_ENABLE_def
      LASSO_DATACELL_ENABLE_MASK_def)

lemma set_cell_strobe_gap:
  assumes "set_cell_strobe b dC t = (t', dC')"
  shows "t' - of_nat (cell_footprint dC') = t - of_nat (cell_footprint dC)"
proof (cases "cell_enabled dC")
  case True
  show ?thesis
  proof (cases b)
    case True
    with \<open>cell_enabled dC\<close> assms show ?thesis by (simp add: set_cell_strobe_same)
  next
    case False
    with True assms show ?thesis
      by (auto simp: set_cell_strobe_disable cell_footprint_def enable_bit_cleared)
  qed
next
  case False
  show ?thesis
  proof (cases b)
    case True
    with False assms show ?thesis
      by (auto simp: set_cell_strobe_enable cell_footprint_def cell_size_def enable_bit_set)
  next
    case b: False
    with False assms show ?thesis by (simp add: set_cell_strobe_same)
  qed
qed


lemma interprete_opcode_other_data_space:
  assumes "interprete_opcode cfg e rb cmd opc s = (s1, out)" and "opc \<noteq> OP_SET_DATACELL_STROBE"
  shows "dataCells s1 = dataCells s \<and> Bytes_total (strobe s1) = Bytes_total (strobe s) \<and>
         dataCellMaskBytes s1 = dataCellMaskBytes s"
  using assms
  by (auto simp: interprete_opcode_def Let_def split: if_splits sum.splits option.splits prod.splits)

lemma interprete_opcode_strobe_data_space:
  assumes "interprete_opcode cfg e rb cmd OP_SET_DATACELL_STROBE s = (s1, out)"
  shows "(dataCells s1 = dataCells s \<and> Bytes_total (strobe s1) = Bytes_total (strobe s) \<or>
          (\<exists>i dC b. cell_number cmd = Inr i \<and> bool_flag cmd = Inr b \<and> \<not> lasso_strobing s \<and>
             unat i < length (dataCells s) \<and>
             dataCells s1 = (dataCells s)[unat i := dC] \<and>
             set_cell_strobe b (dataCells s ! unat i) (Bytes_total (strobe s)) =
               (Bytes_total (strobe s1), dC))) \<and>
         dataCellMaskBytes s1 = dataCellMaskBytes s"
proof -
  have ops: "OP_SET_DATACELL_STROBE \<noteq> OP_GET_PROTOCOL_INFO" "OP_SET_DATACELL_STROBE \<noteq> OP_GET_TIMING_INFO"
    "OP_SET_DATACELL_STROBE \<noteq> OP_GET_DATACELL_COUNT" "OP_SET_DATACELL_STROBE \<noteq> OP_GET_DATACELL_PARAMS"
    "OP_SET_DATACELL_STROBE \<noteq> OP_GET_DATACELL_VALUE" "OP_SET_DATACELL_STROBE \<noteq> OP_SET_ADVERTISE"
    "OP_SET_DATACELL_STROBE \<noteq> OP_SET_STROBE_PERIOD" "OP_SET_DATACELL_STROBE \<noteq> OP_SET_DATASPACE_STROBE"
    "\<not> (0x61 :: u32) \<le> OP_SET_DATACELL_STROBE"
    by (simp_all add: OP_SET_DATACELL_STROBE_def OP_GET_PROTOCOL_INFO_def OP_GET_TIMING_INFO_def
        OP_GET_DATACELL_COUNT_def OP_GET_DATACELL_PARAMS_def OP_GET_DATACELL_VALUE_def
        OP_SET_ADVERTISE_def OP_SET_STROBE_PERIOD_def OP_SET_DATASPACE_STROBE_def)
  show ?thesis
  proof (cases "lasso_strobing s")
    case True
    with assms ops show ?thesis by (simp add: interprete_opcode_def)
  next
    case False
    show ?thesis
    proof (cases "cell_number cmd")
      case (Inl err)
      with assms ops False show ?thesis by (simp add: interprete_opcode_def)
    next
      case (Inr i)
      obtain r p where seek: "lasso_hostSeekDatacell s i = (r, p)"
        by (cases "lasso_hostSeekDatacell s i")
      show ?thesis
      proof (cases r)
        case None
        with assms ops False Inr seek show ?thesis by (simp add: interprete_opcode_def)
      next
        case (Some dC)
        with seek have "seek_loop (dataCells s) i 0 = (Some dC, p)"
          by (simp add: lasso_hostSeekDatacell_def)
        from seek_loop_Some [OF this] have i: "unat i < length (dataCells s)"
          and dC: "dC = dataCells s ! unat i" by simp_all
        show ?thesis
        proof (cases "bool_flag cmd")
          case (Inl err)
          with assms ops False Inr seek Some show ?thesis by (simp add: interprete_opcode_def)
        next
          case b: (Inr b)
          obtain t dC1 where scs: "set_cell_strobe b dC (Bytes_total (strobe s)) = (t, dC1)"
            by (cases "set_cell_strobe b dC (Bytes_total (strobe s))")
          with assms ops False Inr seek Some b i dC show ?thesis
            by (auto simp: interprete_opcode_def Let_def split: if_splits)
        qed
      qed
    qed
  qed
qed

lemma gap_arith:
  fixes a d A A' T0 T1 :: u32
  assumes "A' + a = A + d" and "T1 - d = T0 - a"
  shows "T1 - A' = T0 - A"
proof -
  from assms(1) have "A' = A + d - a"
    by (simp add: eq_diff_eq)
  moreover from assms(2) have "T1 = T0 - a + d"
    by (simp add: diff_eq_eq)
  ultimately show ?thesis
    by simp
qed

lemma interprete_opcode_law_gap:
  assumes "interprete_opcode cfg e rb cmd opc s = (s1, out)"
  shows "law_gap s1 = law_gap s \<and> dataCellMaskBytes s1 = dataCellMaskBytes s"
proof (cases "opc = OP_SET_DATACELL_STROBE")
  case False
  from interprete_opcode_other_data_space [OF assms False] show ?thesis
    by (simp add: law_gap_def)
next
  case True
  note ds = interprete_opcode_strobe_data_space [OF assms [unfolded True]]
  from ds have mb: "dataCellMaskBytes s1 = dataCellMaskBytes s"
    by (rule conjunct2)
  from ds have "dataCells s1 = dataCells s \<and> Bytes_total (strobe s1) = Bytes_total (strobe s) \<or>
          (\<exists>i dC b. cell_number cmd = Inr i \<and> bool_flag cmd = Inr b \<and> \<not> lasso_strobing s \<and>
             unat i < length (dataCells s) \<and>
             dataCells s1 = (dataCells s)[unat i := dC] \<and>
             set_cell_strobe b (dataCells s ! unat i) (Bytes_total (strobe s)) =
               (Bytes_total (strobe s1), dC))"
    by (rule conjunct1)
  then show ?thesis
  proof
    assume "dataCells s1 = dataCells s \<and> Bytes_total (strobe s1) = Bytes_total (strobe s)"
    with mb show ?thesis
      by (simp add: law_gap_def)
  next
    assume "\<exists>i dC b. cell_number cmd = Inr i \<and> bool_flag cmd = Inr b \<and> \<not> lasso_strobing s \<and>
             unat i < length (dataCells s) \<and>
             dataCells s1 = (dataCells s)[unat i := dC] \<and>
             set_cell_strobe b (dataCells s ! unat i) (Bytes_total (strobe s)) =
               (Bytes_total (strobe s1), dC)"
    then obtain i :: u8 and dC b where i: "unat i < length (dataCells s)"
      and cells: "dataCells s1 = (dataCells s)[unat i := dC]"
      and scs: "set_cell_strobe b (dataCells s ! unat i) (Bytes_total (strobe s)) =
               (Bytes_total (strobe s1), dC)"
      by blast
    from active_Bytes_update [OF i, of dC]
    have "(of_nat (active_Bytes ((dataCells s)[unat i := dC])) :: u32) +
            of_nat (cell_footprint (dataCells s ! unat i))
        = of_nat (active_Bytes (dataCells s)) + of_nat (cell_footprint dC)"
      by (metis of_nat_add)
    then have "Bytes_total (strobe s1) - of_nat (active_Bytes ((dataCells s)[unat i := dC]))
        = Bytes_total (strobe s) - of_nat (active_Bytes (dataCells s))"
      using set_cell_strobe_gap [OF scs] by (rule gap_arith)
    with cells mb show ?thesis
      by (simp add: law_gap_def)
  qed
qed


lemma interprete_begin_data_space:
  "dataCells (interprete_begin cfg s) = dataCells s"
  "strobe (interprete_begin cfg s) = strobe s"
  "dataCellMaskBytes (interprete_begin cfg s) = dataCellMaskBytes s"
  by (simp_all add: interprete_begin_def Let_def)

lemma write_reply_data_space:
  "dataCells (write_reply cfg e r s) = dataCells s"
  "strobe (write_reply cfg e r s) = strobe s"
  "dataCellMaskBytes (write_reply cfg e r s) = dataCellMaskBytes s"
  by (simp_all add: write_reply_def Let_def)

lemma InterpreteCommand_law_gap:
  "law_gap (lasso_hostInterpreteCommand cfg e s) = law_gap s \<and>
   dataCellMaskBytes (lasso_hostInterpreteCommand cfg e s) = dataCellMaskBytes s"
proof -
  define cmd where "cmd = received_command e s"
  define s0 where "s0 = interprete_begin cfg s"
  have s0: "law_gap s0 = law_gap s" "dataCellMaskBytes s0 = dataCellMaskBytes s"
    by (simp_all add: s0_def interprete_begin_data_space law_gap_def)
  have wr: "law_gap (write_reply cfg e r s1) = law_gap s1"
    "dataCellMaskBytes (write_reply cfg e r s1) = dataCellMaskBytes s1" for r s1
    by (simp_all add: write_reply_data_space law_gap_def)
  show ?thesis
  proof (cases "opcode cmd")
    case None
    with s0 show ?thesis
      by (simp add: lasso_hostInterpreteCommand_def cmd_def [symmetric] s0_def [symmetric])
  next
    case (Some opc)
    show ?thesis
    proof (cases "args_error cmd \<noteq> 0")
      case True
      with Some s0 wr show ?thesis
        by (simp add: lasso_hostInterpreteCommand_def cmd_def [symmetric] s0_def [symmetric])
    next
      case False
      obtain s1 out where io: "interprete_opcode cfg e (receive_mem s0) cmd opc s0 = (s1, out)"
        by (cases "interprete_opcode cfg e (receive_mem s0) cmd opc s0")
      from interprete_opcode_law_gap [OF io] s0
      have "law_gap s1 = law_gap s" "dataCellMaskBytes s1 = dataCellMaskBytes s"
        by simp_all
      with Some False io wr show ?thesis
        by (cases out)
           (simp_all add: lasso_hostInterpreteCommand_def cmd_def [symmetric] s0_def [symmetric])
    qed
  qed
qed

lemma strobe_sizes_Bytes_total:
  "Bytes_total (strobe_sizes cfg mb st) =
     Bytes_total st +
     ((if STROBE_DYNAMIC cfg then ucast mb else 0) +
      (if STROBE_CRC_ENABLE cfg then CRC_BYTEWIDTH cfg else 0) +
      (if STROBE_ENCODING cfg = ENCODING_COBS \<or> STROBE_ENCODING cfg = ENCODING_ESCS then 1 else 0))"
  by (cases "STROBE_ENCODING cfg") (simp_all add: strobe_sizes_def Let_def)

lemma RegisterMEM_data_space:
  assumes "lasso_hostRegisterMEM cfg m1 m2 m3 s = (r, s')"
  shows "dataCells s' = dataCells s \<and>
         Bytes_total (strobe s') = Bytes_total (strobe s) + of_nat (strobe_overhead cfg s')"
proof -
  define mb where "mb = (if STROBE_DYNAMIC cfg then mask_bytes (dataCellCount s) else dataCellMaskBytes s)"
  define st where "st = strobe_sizes cfg mb (strobe s)"
  from assms have s': "dataCells s' = dataCells s" "dataCellMaskBytes s' = mb"
      "Bytes_total (strobe s') = Bytes_total st"
    by (auto simp: lasso_hostRegisterMEM_def Let_def mb_def st_def halve_for_ESCS_def split: if_splits)
  have "(of_nat (strobe_overhead cfg s') :: u32) =
     (if STROBE_DYNAMIC cfg then ucast mb else 0) +
      (if STROBE_CRC_ENABLE cfg then CRC_BYTEWIDTH cfg else 0) +
      (if STROBE_ENCODING cfg = ENCODING_COBS \<or> STROBE_ENCODING cfg = ENCODING_ESCS then 1 else 0)"
    by (simp add: strobe_overhead_def s'(2))
  with s' show ?thesis
    by (simp add: st_def strobe_sizes_Bytes_total)
qed

lemma run_operation_law_gap:
  assumes "\<not> registration_faulted cfg x s"
  shows "law_gap (run_operation cfg e x s) = law_gap s \<and>
         dataCellMaskBytes (run_operation cfg e x s) = dataCellMaskBytes s"
proof (cases x)
  case (REGISTER fresh ty cnt ptr_null rate)
  obtain r s' where reg: "lasso_hostRegisterDataCell cfg fresh ty cnt ptr_null rate s = (r, s')"
    by (cases "lasso_hostRegisterDataCell cfg fresh ty cnt ptr_null rate s")
  with assms REGISTER have "r \<noteq> EFAULT"
    by simp
  from RegisterDataCell_law_gap [OF reg this] reg REGISTER show ?thesis
    by simp
next
  case (COMMAND cmd)
  with InterpreteCommand_law_gap [of cfg "e\<lparr>parse_command := (\<lambda>bs. cmd)\<rparr>" s] show ?thesis
    by simp
qed

lemma run_operations_law_gap:
  assumes "\<not> any_registration_faulted cfg e xs s"
  shows "law_gap (run_operations cfg e xs s) = law_gap s \<and>
         dataCellMaskBytes (run_operations cfg e xs s) = dataCellMaskBytes s"
  using assms
proof (induction xs arbitrary: s)
  case Nil
  then show ?case by simp
next
  case (Cons x xs)
  from Cons.prems have x: "\<not> registration_faulted cfg x s"
    and xs: "\<not> any_registration_faulted cfg e xs (run_operation cfg e x s)"
    by simp_all
  from Cons.IH [OF xs] run_operation_law_gap [OF x, of e] show ?case
    by simp
qed

lemma strobe_overhead_cong:
  "dataCellMaskBytes s1 = dataCellMaskBytes s \<Longrightarrow> strobe_overhead cfg s1 = strobe_overhead cfg s"
  by (simp add: strobe_overhead_def)

lemma strobe_size_law_gap:
  "strobe_size_law cfg s \<longleftrightarrow> law_gap s = of_nat (strobe_overhead cfg s)"
proof -
  have "(t - a = o') = (t = a + o')" for t a o' :: u32
    by (simp add: diff_eq_eq add.commute [of a o'])
  then show ?thesis
    by (simp add: strobe_size_law_def law_gap_def)
qed

section \<open>The strobe size law\<close>

text \<open>
  Claim C2 fails on the code. A registration with \<^verbatim>\<open>ptr == NULL\<close> returns
  \<^verbatim>\<open>EFAULT\<close> after the new cell has been linked into the chain with its type and count,
  but before \<^verbatim>\<open>strobe.Bytes_total\<close> is updated. After a second, successful registration
  and \<^verbatim>\<open>lasso_hostRegisterMEM\<close> the chain holds two enabled one-byte cells, the law asks
  for \<open>2 + 2\<close> bytes (two cells, two CRC bytes), and \<^verbatim>\<open>strobe.Bytes_total\<close> is 3.
\<close>

theorem strobe_size_law_broken_by_failed_registration:
  "fst example_register_null = EFAULT \<and>
   fst example_register_next = 0 \<and>
   fst example_register_mem = 0 \<and>
   map cell_enabled (dataCells (snd example_register_mem)) = [True, True] \<and>
   active_Bytes (dataCells (snd example_register_mem)) = 2 \<and>
   strobe_overhead example_config (snd example_register_mem) = 2 \<and>
   Bytes_total (strobe (snd example_register_mem)) = 3 \<and>
   \<not> strobe_size_law example_config (snd example_register_mem)"
  by code_simp

text \<open>
  The faulted registration is the only way out of the law. From the initial state, any run
  of registrations and commands in which no registration returns \<^verbatim>\<open>EFAULT\<close>, then
  \<^verbatim>\<open>lasso_hostRegisterMEM\<close> (whatever it returns), then any further such run: the law
  holds after \<^verbatim>\<open>lasso_hostRegisterMEM\<close> and at the end, in the arithmetic of
  \<^verbatim>\<open>uint32_t\<close>.
\<close>

lemma strobe_size_law_without_faulted_registration:
  assumes "\<not> any_registration_faulted cfg e before (host_init cfg)"
    and "\<not> any_registration_faulted cfg e after
            (snd (lasso_hostRegisterMEM cfg m1 m2 m3 (run_operations cfg e before (host_init cfg))))"
  shows "strobe_size_law cfg
           (snd (lasso_hostRegisterMEM cfg m1 m2 m3 (run_operations cfg e before (host_init cfg)))) \<and>
         strobe_size_law cfg
           (run_operations cfg e after
              (snd (lasso_hostRegisterMEM cfg m1 m2 m3 (run_operations cfg e before (host_init cfg)))))"
proof -
  define s1 where "s1 = run_operations cfg e before (host_init cfg)"
  define s2 where "s2 = snd (lasso_hostRegisterMEM cfg m1 m2 m3 s1)"
  define s3 where "s3 = run_operations cfg e after s2"
  have "law_gap (host_init cfg) = 0"
    by (simp add: law_gap_def host_init_def active_Bytes_def)
  with run_operations_law_gap [OF assms(1)] have g1: "law_gap s1 = 0"
    by (simp add: s1_def)
  obtain r where "lasso_hostRegisterMEM cfg m1 m2 m3 s1 = (r, s2)"
    by (cases "lasso_hostRegisterMEM cfg m1 m2 m3 s1") (simp add: s2_def)
  from RegisterMEM_data_space [OF this] g1 have g2: "law_gap s2 = of_nat (strobe_overhead cfg s2)"
    by (simp add: law_gap_def)
  from run_operations_law_gap [OF assms(2) [folded s1_def s2_def]]
  have gap3: "law_gap s3 = law_gap s2" and mb3: "dataCellMaskBytes s3 = dataCellMaskBytes s2"
    by (simp_all add: s3_def s2_def)
  from strobe_overhead_cong [OF mb3, of cfg] gap3 g2
  have "law_gap s3 = of_nat (strobe_overhead cfg s3)"
    by simp
  with g2 show ?thesis
    by (simp add: strobe_size_law_gap s1_def s2_def s3_def)
qed

section \<open>SetDataCellStrobe\<close>

text \<open>
  Claim C3 fails on the code in its last part. The \<^verbatim>\<open>S\<close> case of the interpreter never
  reads the permanent bit: for a registered permanent cell (which registration has
  enabled), the command \<^verbatim>\<open>S,0,0\<close> received while strobing is off clears the enable bit
  and takes the cell's byte out of \<^verbatim>\<open>strobe.Bytes_total\<close>.
\<close>

theorem SetDataCellStrobe_disables_permanent_cell:
  "\<not> lasso_strobing (example_connected LASSO_DATACELL_PERMANENT) \<and>
   map cell_permanent (dataCells (example_connected LASSO_DATACELL_PERMANENT)) = [True] \<and>
   map cell_enabled (dataCells (example_connected LASSO_DATACELL_PERMANENT)) = [True] \<and>
   Bytes_total (strobe (example_connected LASSO_DATACELL_PERMANENT)) = 3 \<and>
   map cell_permanent (dataCells (lasso_hostInterpreteCommand example_config
      (example_env (example_command OP_SET_DATACELL_STROBE 0 0))
      (example_connected LASSO_DATACELL_PERMANENT))) = [True] \<and>
   map cell_enabled (dataCells (lasso_hostInterpreteCommand example_config
      (example_env (example_command OP_SET_DATACELL_STROBE 0 0))
      (example_connected LASSO_DATACELL_PERMANENT))) = [False] \<and>
   Bytes_total (strobe (lasso_hostInterpreteCommand example_config
      (example_env (example_command OP_SET_DATACELL_STROBE 0 0))
      (example_connected LASSO_DATACELL_PERMANENT))) = 2"
  by code_simp

text \<open>
  What the command does otherwise: with strobing on the command changes neither the cells nor
  the strobe frame; with strobing off it replaces the addressed cell and
  \<^verbatim>\<open>strobe.Bytes_total\<close> by what \<^verbatim>\<open>set_cell_strobe\<close> computes, which for a disabled cell
  and flag 1 adds the cell's size and sets the enable bit, and for an enabled cell and
  flag 0 subtracts it and clears the bit, whatever the permanent bit says.
\<close>

lemma SetDataCellStrobe_effect:
  assumes "opcode (received_command e s) = Some OP_SET_DATACELL_STROBE"
    and "args_error (received_command e s) = 0"
  shows "(lasso_strobing s \<longrightarrow>
            dataCells (lasso_hostInterpreteCommand cfg e s) = dataCells s \<and>
            strobe (lasso_hostInterpreteCommand cfg e s) = strobe s) \<and>
         (\<not> lasso_strobing s \<and> cell_number (received_command e s) = Inr i \<and>
          unat i < length (dataCells s) \<and> bool_flag (received_command e s) = Inr b \<longrightarrow>
            dataCells (lasso_hostInterpreteCommand cfg e s) =
              (dataCells s)[unat i := snd (set_cell_strobe b (dataCells s ! unat i) (Bytes_total (strobe s)))] \<and>
            Bytes_total (strobe (lasso_hostInterpreteCommand cfg e s)) =
              fst (set_cell_strobe b (dataCells s ! unat i) (Bytes_total (strobe s))))"
proof -
  define cmd where "cmd = received_command e s"
  define s0 where "s0 = interprete_begin cfg s"
  have s0: "dataCells s0 = dataCells s" "strobe s0 = strobe s" "lasso_strobing s0 = lasso_strobing s"
    by (simp_all add: s0_def interprete_begin_data_space interprete_begin_flags)
  have ops: "OP_SET_DATACELL_STROBE \<noteq> OP_GET_PROTOCOL_INFO" "OP_SET_DATACELL_STROBE \<noteq> OP_GET_TIMING_INFO"
    "OP_SET_DATACELL_STROBE \<noteq> OP_GET_DATACELL_COUNT" "OP_SET_DATACELL_STROBE \<noteq> OP_GET_DATACELL_PARAMS"
    "OP_SET_DATACELL_STROBE \<noteq> OP_GET_DATACELL_VALUE" "OP_SET_DATACELL_STROBE \<noteq> OP_SET_ADVERTISE"
    "OP_SET_DATACELL_STROBE \<noteq> OP_SET_STROBE_PERIOD" "OP_SET_DATACELL_STROBE \<noteq> OP_SET_DATASPACE_STROBE"
    "\<not> (0x61 :: u32) \<le> OP_SET_DATACELL_STROBE"
    by (simp_all add: OP_SET_DATACELL_STROBE_def OP_GET_PROTOCOL_INFO_def OP_GET_TIMING_INFO_def
        OP_GET_DATACELL_COUNT_def OP_GET_DATACELL_PARAMS_def OP_GET_DATACELL_VALUE_def
        OP_SET_ADVERTISE_def OP_SET_STROBE_PERIOD_def OP_SET_DATASPACE_STROBE_def)
  note unfold = InterpreteCommand_opcode [OF assms, of cfg, folded cmd_def s0_def]
  have on: "dataCells (lasso_hostInterpreteCommand cfg e s) = dataCells s \<and>
            strobe (lasso_hostInterpreteCommand cfg e s) = strobe s" if "lasso_strobing s"
    using that s0 ops by (simp add: unfold interprete_opcode_def)
  have off: "dataCells (lasso_hostInterpreteCommand cfg e s) =
              (dataCells s)[unat i := snd (set_cell_strobe b (dataCells s ! unat i) (Bytes_total (strobe s)))] \<and>
            Bytes_total (strobe (lasso_hostInterpreteCommand cfg e s)) =
              fst (set_cell_strobe b (dataCells s ! unat i) (Bytes_total (strobe s)))"
    if "\<not> lasso_strobing s" "cell_number cmd = Inr i" "unat i < length (dataCells s)"
       "bool_flag cmd = Inr b"
  proof -
    have seek: "lasso_hostSeekDatacell s0 i =
        (Some (dataCells s ! unat i), of_nat (active_Bytes (take (unat i) (dataCells s))))"
      using lasso_hostSeekDatacell_sum [of i s0] that(3) s0 by simp
    obtain t dC1 where scs: "set_cell_strobe b (dataCells s ! unat i) (Bytes_total (strobe s)) = (t, dC1)"
      by (cases "set_cell_strobe b (dataCells s ! unat i) (Bytes_total (strobe s))")
    from that s0 ops seek scs show ?thesis
      by (simp add: unfold interprete_opcode_def Let_def write_reply_data_space split: outcome.splits)
  qed
  from on off show ?thesis
    unfolding cmd_def by blast
qed

section \<open>lasso_hostReceiveByte\<close>

text \<open>
  Claim C8, as the code has it. In RN command encoding, a call of
  \<^verbatim>\<open>lasso_hostReceiveByte\<close> with the byte \<^verbatim>\<open>'\n'\<close> made while the receive buffer holds at
  least one byte and is not full, and the byte stored last is not \<^verbatim>\<open>'\r'\<close>, resets the
  receive buffer index to zero and reports \<^verbatim>\<open>EILSEQ\<close>. With an empty receive buffer the
  call reports \<^verbatim>\<open>ENODATA\<close> and changes nothing; with a full receive buffer it reports
  \<^verbatim>\<open>EOVERFLOW\<close> and resets the index.
\<close>

theorem lasso_hostReceiveByte_newline:
  assumes "COMMAND_ENCODING cfg = ENCODING_RN" and "receiveBuffer s = Some rb"
  shows "(0 < unat (receiveBufferIndex s) \<and> unat (receiveBufferIndex s) < COMMAND_BUFFER_SIZE cfg \<and>
          rb ! (unat (receiveBufferIndex s) - 1) \<noteq> CR \<longrightarrow>
            lasso_hostReceiveByte cfg NL s = Inr (EILSEQ, s\<lparr>receiveBufferIndex := 0\<rparr>)) \<and>
         (receiveBufferIndex s = 0 \<and> 0 < COMMAND_BUFFER_SIZE cfg \<longrightarrow>
            lasso_hostReceiveByte cfg NL s = Inr (ENODATA, s)) \<and>
         (COMMAND_BUFFER_SIZE cfg \<le> unat (receiveBufferIndex s) \<longrightarrow>
            lasso_hostReceiveByte cfg NL s = Inr (EOVERFLOW, s\<lparr>receiveBufferIndex := 0\<rparr>))"
  using assms by (auto simp: lasso_hostReceiveByte_def unat_eq_0)

theorem lasso_hostReceiveByte_newline_witness:
  "lasso_hostReceiveByte example_config NL (example_received [0x78]) =
     Inr (EILSEQ, (example_received [0x78])\<lparr>receiveBufferIndex := 0\<rparr>) \<and>
   lasso_hostReceiveByte example_config NL (example_received []) =
     Inr (ENODATA, example_received []) \<and>
   lasso_hostReceiveByte example_config NL (example_received (replicate 16 0x78)) =
     Inr (EOVERFLOW, (example_received (replicate 16 0x78))\<lparr>receiveBufferIndex := 0\<rparr>)"
proof -
  have enc: "COMMAND_ENCODING example_config = ENCODING_RN"
    and sz: "COMMAND_BUFFER_SIZE example_config = 16"
    by (simp_all add: example_config_def)
  have rb1: "receiveBuffer (example_received [0x78]) = Some (0x78 # replicate 15 0)"
    and idx1: "receiveBufferIndex (example_received [0x78]) = 1"
    and rb0: "receiveBuffer (example_received []) = Some (replicate 16 0)"
    and idx0: "receiveBufferIndex (example_received []) = 0"
    and rb16: "receiveBuffer (example_received (replicate 16 0x78)) = Some (replicate 16 0x78)"
    and idx16: "receiveBufferIndex (example_received (replicate 16 0x78)) = 16"
    by (simp_all add: example_received_def)
  from lasso_hostReceiveByte_newline [OF enc rb1] idx1 sz
  have nl1: "lasso_hostReceiveByte example_config NL (example_received [0x78]) =
      Inr (EILSEQ, (example_received [0x78])\<lparr>receiveBufferIndex := 0\<rparr>)"
    by (simp add: CR_def)
  from lasso_hostReceiveByte_newline [OF enc rb0] idx0 sz
  have nl0: "lasso_hostReceiveByte example_config NL (example_received []) =
      Inr (ENODATA, example_received [])"
    by simp
  from lasso_hostReceiveByte_newline [OF enc rb16] idx16 sz
  have nl16: "lasso_hostReceiveByte example_config NL (example_received (replicate 16 0x78)) =
      Inr (EOVERFLOW, (example_received (replicate 16 0x78))\<lparr>receiveBufferIndex := 0\<rparr>)"
    by simp
  from nl1 nl0 nl16 show ?thesis
    by simp
qed

text \<open>
  The claim as stated fails on a \<^verbatim>\<open>'\\n'\<close> that follows a complete frame: the example host
  receives \<^verbatim>\<open>n\<close>, \<^verbatim>\<open>'\\r'\<close>, \<^verbatim>\<open>'\\n'\<close> and one more \<^verbatim>\<open>'\\n'\<close>. The byte before the last
  call is \<^verbatim>\<open>'\\n'\<close>, not \<^verbatim>\<open>'\\r'\<close>, and the call reports \<^verbatim>\<open>ENODATA\<close> (61), not
  \<^verbatim>\<open>EILSEQ\<close> (138).
\<close>

theorem lasso_hostReceiveByte_newline_counterexample:
  "map_sum id fst (receive_bytes example_config [0x6E, CR, NL, NL] (example_host 0)) =
     Inr [0, 0, 0, 61] \<and> EILSEQ = 138"
  by code_simp

section \<open>The inline decoders on a full destination buffer\<close>

text \<open>
  What both decoders do when a payload byte arrives and the destination already holds
  \<^verbatim>\<open>size\<close> bytes: the call returns \<open>size + 1\<close> (as a \<^verbatim>\<open>uint8_t\<close>) and stores nothing.
  Afterwards the COBS decoder ignores every byte up to the delimiter and answers the
  delimiter with 0.
\<close>

lemma COBS_overrun_returns:
  assumes "c \<noteq> COBS_DEL" and "cobs_code st \<noteq> 255" and "\<not> cobs_count st < sz"
  shows "COBS_decode_inline c dest sz st = (sz + 1, dest, st\<lparr>cobs_code := 255\<rparr>)"
  using assms by (simp add: COBS_decode_inline_def COBS_store_def Let_def)

lemma COBS_after_overrun_ignores:
  assumes "c \<noteq> COBS_DEL" and "cobs_code st = 255" and "cobs_count st \<noteq> 0"
  shows "COBS_decode_inline c dest sz st = (0, dest, st)"
  using assms by (simp add: COBS_decode_inline_def)

lemma COBS_after_overrun_delimiter:
  assumes "cobs_code st = 255"
  shows "COBS_decode_inline COBS_DEL dest sz st = (0, dest, st\<lparr>cobs_count := 0\<rparr>)"
  using assms by (simp add: COBS_decode_inline_def Let_def)

lemma ESCS_overrun_returns:
  assumes "c \<noteq> ESCS_DEL" and "c \<noteq> ESCS_ESC" and "escs_state st \<noteq> 0" and "\<not> escs_count st < sz"
  shows "fst (ESCS_decode_inline c dest sz st) = sz + 1 \<and>
         fst (snd (ESCS_decode_inline c dest sz st)) = dest \<and>
         escs_state (snd (snd (ESCS_decode_inline c dest sz st))) = 0 \<and>
         escs_count (snd (snd (ESCS_decode_inline c dest sz st))) = escs_count st"
  using assms by (simp add: ESCS_decode_inline_def Let_def)

lemma ESCS_no_store_when_full:
  assumes "\<not> escs_count st < sz"
  shows "fst (snd (ESCS_decode_inline c dest sz st)) = dest"
  using assms by (simp add: ESCS_decode_inline_def Let_def)

text \<open>
  The ESCS decoder keeps \<^verbatim>\<open>count\<close> over the overrun, and the delimiter returns it.
\<close>

lemma ESCS_delimiter_returns_count:
  assumes "escs_count st \<noteq> 0"
  shows "ESCS_decode_inline ESCS_DEL dest sz st =
           (escs_count st, dest, st\<lparr>escs_state := 255, escs_count := 0\<rparr>)"
  using assms by (simp add: ESCS_decode_inline_def Let_def)

text \<open>
  Claim C4 fails on the code for ESCS. With a destination of one byte, the frame
  \<^verbatim>\<open>7E 41 42 43 7E\<close> overruns at \<^verbatim>\<open>42\<close>, where the call returns \<open>size + 1 = 2\<close>; no
  later byte is stored, but the closing delimiter returns 1: it reports the truncated
  frame as a completed message of \<open>size\<close> bytes, since the overrun leaves
  \<^verbatim>\<open>ESCS_ctrl.count\<close> as it is. The values returned by the five calls are listed in order.
\<close>

theorem ESCS_decode_inline_reports_overrun_frame:
  "ESCS_decode_trace [0x7E, 0x41, 0x42, 0x43, 0x7E] [0xAA] 1 ESCS_ctrl_init =
     ([0, 0, 2, 0, 1], [0x41], \<lparr>escs_state = 255, escs_count = 0\<rparr>)"
  by code_simp

section \<open>The COBS round trip\<close>

text \<open>
  Bytes and lengths: the lengths that occur are below 256, where \<^verbatim>\<open>uint8_t\<close> arithmetic
  does not wrap.
\<close>

lemma u8_of_nat_inj:
  "a < 256 \<Longrightarrow> b < 256 \<Longrightarrow> (of_nat a :: u8) = of_nat b \<longleftrightarrow> a = b"
  by (simp add: word_of_nat_eq_iff take_bit_nat_eq_self)

lemma u8_of_nat_zero:
  "a < 256 \<Longrightarrow> (of_nat a :: u8) = 0 \<longleftrightarrow> a = 0"
  using u8_of_nat_inj [of a 0] by simp

lemma u8_unat_of_nat:
  "a < 256 \<Longrightarrow> unat (of_nat a :: u8) = a"
  by (simp add: unat_of_nat)

lemma COBS_stuffed_free:
  "COBS_DEL \<notin> set g \<Longrightarrow> COBS_stuffed g = of_nat (length g + 1) # g"
  by (induction g) (auto simp: add.commute)

lemma COBS_stuffed_group:
  "COBS_DEL \<notin> set g \<Longrightarrow> COBS_stuffed (g @ COBS_DEL # q) = of_nat (length g + 1) # g @ COBS_stuffed q"
  by (induction g) (auto simp: add.commute)

lemma COBS_split:
  "COBS_DEL \<notin> set p \<or> (\<exists>g q. p = g @ COBS_DEL # q \<and> COBS_DEL \<notin> set g)"
  using split_list_first [of COBS_DEL p] by blast

lemma COBS_stuffed_Cons:
  "\<exists>c r. COBS_stuffed p = c # r"
  by (induction p) simp_all

lemma COBS_stuffed_length:
  "length (COBS_stuffed p) = length p + 1"
proof (induction p)
  case Nil
  show ?case by simp
next
  case (Cons x xs)
  obtain c r where cr: "COBS_stuffed xs = c # r"
    using COBS_stuffed_Cons by blast
  with Cons show ?case by simp
qed

subsection \<open>The encoder\<close>

text \<open>
  The inner loop runs to the next zero; the outer loop, started on a buffer that holds a
  header byte, the payload and the phantom delimiter, writes \<open>COBS_stuffed\<close> of the payload
  over the header byte and the payload and stops at the phantom delimiter.
\<close>

lemma COBS_scan_group:
  assumes "COBS_DEL \<notin> set g"
  shows "COBS_scan (pre @ g @ COBS_DEL # rest) (length pre) c =
           Some (length pre + length g + 1, c + of_nat (length g))"
  using assms
proof (induction g arbitrary: pre c)
  case Nil
  show ?case
    by (subst COBS_scan.simps) simp
next
  case (Cons x g)
  from Cons.prems have x: "x \<noteq> COBS_DEL" and g: "COBS_DEL \<notin> set g"
    by auto
  have "COBS_scan ((pre @ [x]) @ g @ COBS_DEL # rest) (length (pre @ [x])) (c + 1) =
          Some (length (pre @ [x]) + length g + 1, c + 1 + of_nat (length g))"
    by (rule Cons.IH [OF g])
  then have step: "COBS_scan (pre @ x # g @ COBS_DEL # rest) (length pre + 1) (c + 1) =
          Some (length pre + length g + 2, c + 1 + of_nat (length g))"
    by simp
  show ?case
    by (subst COBS_scan.simps) (use step in \<open>simp add: x nth_append add.assoc\<close>)
qed


lemma COBS_loop_done:
  "COBS_loop buf srca srcb 0 = Some (buf, srca)"
  by (subst COBS_loop.simps) simp

lemma COBS_loop_stuffed:
  assumes "length p \<le> 254"
  shows "COBS_loop (pre @ h # p @ COBS_DEL # tail) (length pre) (length pre + 1) (of_nat (length p + 1)) =
           Some (pre @ COBS_stuffed p @ COBS_DEL # tail, length pre + length p + 1)"
  using assms
proof (induction "length p" arbitrary: p pre h rule: less_induct)
  case less
  let ?buf = "pre @ h # p @ COBS_DEL # tail"
  define sz :: u8 where "sz = of_nat (length p + 1)"
  have sz: "sz \<noteq> 0"
    unfolding sz_def using less.prems u8_of_nat_zero [of "length p + 1"] by simp
  from COBS_split [of p] show ?case
  proof
    assume free: "COBS_DEL \<notin> set p"
    have scan: "COBS_scan ?buf (length pre + 1) 1 = Some (length pre + length p + 2, sz)"
      unfolding sz_def using COBS_scan_group [OF free, of "pre @ [h]" tail 1] by (simp add: add.commute)
    have un: "unat sz = length p + 1"
      unfolding sz_def using less.prems u8_unat_of_nat [of "length p + 1"] by simp
    have upd: "?buf[length pre := sz] = pre @ sz # p @ COBS_DEL # tail"
      by (simp add: list_update_append)
    have stuffed: "COBS_stuffed p = sz # p"
      unfolding sz_def by (rule COBS_stuffed_free [OF free])
    have "COBS_loop ?buf (length pre) (length pre + 1) sz =
            Some (pre @ COBS_stuffed p @ COBS_DEL # tail, length pre + length p + 1)"
      apply (subst COBS_loop.simps)
      apply (simp only: sz scan if_False option.case prod.case)
      apply (simp add: upd un COBS_loop_done stuffed del: list_update.simps)
      done
    then show ?thesis
      by (simp only: sz_def)
  next
    assume "\<exists>g q. p = g @ COBS_DEL # q \<and> COBS_DEL \<notin> set g"
    then obtain g q where p: "p = g @ COBS_DEL # q" and free: "COBS_DEL \<notin> set g"
      by blast
    define c :: u8 where "c = of_nat (length g + 1)"
    define sz' :: u8 where "sz' = of_nat (length q + 1)"
    have scan: "COBS_scan ?buf (length pre + 1) 1 = Some (length pre + length g + 2, c)"
      unfolding c_def
      using COBS_scan_group [OF free, of "pre @ [h]" "q @ COBS_DEL # tail" 1] by (simp add: p add.commute)
    have un: "unat c = length g + 1"
      unfolding c_def using less.prems p u8_unat_of_nat [of "length g + 1"] by simp
    have upd: "?buf[length pre := c] = (pre @ c # g) @ COBS_DEL # q @ COBS_DEL # tail"
      by (simp add: list_update_append p)
    have sz': "sz - c = sz'"
      by (simp add: p sz_def c_def sz'_def)
    have IH: "COBS_loop ((pre @ c # g) @ COBS_DEL # q @ COBS_DEL # tail) (length (pre @ c # g))
                (length (pre @ c # g) + 1) sz' =
              Some ((pre @ c # g) @ COBS_stuffed q @ COBS_DEL # tail, length (pre @ c # g) + length q + 1)"
      unfolding sz'_def using less.prems by (intro less.hyps) (simp_all add: p)
    have idx: "length pre + unat c = length (pre @ c # g)" "length pre + length g + 2 = length (pre @ c # g) + 1"
      by (simp_all add: un)
    have lt: "length pre < length ?buf"
      by simp
    have stuffed: "COBS_stuffed p = c # g @ COBS_stuffed q"
      unfolding c_def p by (rule COBS_stuffed_group [OF free])
    have "COBS_loop ?buf (length pre) (length pre + 1) sz =
            Some (pre @ COBS_stuffed p @ COBS_DEL # tail, length pre + length p + 1)"
      apply (subst COBS_loop.simps)
      apply (simp only: sz scan if_False if_True lt option.case prod.case upd sz' idx)
      apply (simp only: IH stuffed)
      apply (simp add: p)
      done
    then show ?thesis
      by (simp only: sz_def)
  qed
qed


text \<open>
  For every payload of at most 253 bytes \<^verbatim>\<open>COBS_encode\<close> stays inside the COBS buffer and
  leaves there the delimiter, \<open>COBS_stuffed\<close> of the payload and the closing delimiter
  (\<^verbatim>\<open>0xFF\<close> for a frame of an extended message); no zero byte stands between the two
  delimiters. This is the encoder's half of the round trip.
\<close>

lemma COBS_encode_stuffed:
  assumes "length p \<le> 253"
  shows "COBS_encode (COBS_buffer h0 h1 p t) (of_nat (length p)) extended =
           Some (COBS_DEL # COBS_stuffed p @ [if extended then COBS_EXT else COBS_DEL])"
proof -
  have un: "unat (of_nat (length p) :: u8) = length p"
    using assms by (simp add: u8_unat_of_nat)
  have buf: "(COBS_buffer h0 h1 p t)[0 := COBS_DEL, 2 + length p := COBS_DEL] = [COBS_DEL] @ h1 # p @ COBS_DEL # []"
    by (simp add: COBS_buffer_def list_update_append)
  have loop: "COBS_loop ([COBS_DEL] @ h1 # p @ COBS_DEL # []) (length [COBS_DEL]) (length [COBS_DEL] + 1)
                (of_nat (length p + 1)) =
              Some ([COBS_DEL] @ COBS_stuffed p @ COBS_DEL # [], length [COBS_DEL] + length p + 1)"
    using assms by (intro COBS_loop_stuffed) simp
  have sz: "(of_nat (length p) :: u8) + 1 = of_nat (length p + 1)"
    by simp
  have len: "2 + length p < length (COBS_buffer h0 h1 p t)"
    by (simp add: COBS_buffer_def)
  have last: "(COBS_DEL # COBS_stuffed p @ [COBS_DEL])[Suc (Suc (length p)) := COBS_EXT] =
                COBS_DEL # COBS_stuffed p @ [COBS_EXT]"
    by (simp add: list_update_append COBS_stuffed_length)
  from loop show ?thesis
    using un len
    by (simp add: COBS_encode_def Let_def COBS_buffer_def list_update_append COBS_stuffed_length
        numeral_2_eq_2 add.commute)
qed

lemma COBS_stuffed_no_delimiter:
  assumes "length p \<le> 253"
  shows "COBS_DEL \<notin> set (COBS_stuffed p)"
  using assms
proof (induction "length p" arbitrary: p rule: less_induct)
  case less
  from COBS_split [of p] show ?case
  proof
    assume free: "COBS_DEL \<notin> set p"
    have "(of_nat (length p + 1) :: u8) \<noteq> 0"
      using less.prems u8_of_nat_zero [of "length p + 1"] by simp
    with free show ?thesis
      by (simp add: COBS_stuffed_free [OF free] COBS_DEL_def del: of_nat_add of_nat_Suc)
  next
    assume "\<exists>g q. p = g @ COBS_DEL # q \<and> COBS_DEL \<notin> set g"
    then obtain g q where p: "p = g @ COBS_DEL # q" and free: "COBS_DEL \<notin> set g"
      by blast
    have c: "(of_nat (length g + 1) :: u8) \<noteq> 0"
      using less.prems p u8_of_nat_zero [of "length g + 1"] by simp
    have "COBS_DEL \<notin> set (COBS_stuffed q)"
      using less.prems by (intro less.hyps) (simp_all add: p)
    with free c show ?thesis
      unfolding p COBS_stuffed_group [OF free]
      by (simp add: COBS_DEL_def del: of_nat_add of_nat_Suc)
  qed
qed

text \<open>
  The worked example of the header of \<^verbatim>\<open>cobs.c\<close>, encoded and decoded again.
\<close>

lemma COBS_worked_example:
  "COBS_encode (COBS_buffer 0xAA 0xAA [1, 0, 2, 3, 4, 0, 0, 5, 6, 7, 8] 0xAA) 11 False =
     Some [0, 2, 1, 4, 2, 3, 4, 1, 5, 5, 6, 7, 8, 0] \<and>
   COBS_decode_all [0, 2, 1, 4, 2, 3, 4, 1, 5, 5, 6, 7, 8, 0] (replicate 11 0xAA) 11 COBS_ctrl_init 0 =
     (11, [1, 0, 2, 3, 4, 0, 0, 5, 6, 7, 8], \<lparr>cobs_code = 255, cobs_count = 0\<rparr>)"
  by code_simp

subsection \<open>The inline decoder\<close>

text \<open>
  Inside a frame the decoder stores the bytes of a run one by one while its code counts down
  to zero; at every code byte after the first it stores the zero that ended the run before.
  From the state in which a code byte is due, the rest of a stuffed frame and the closing
  delimiter therefore append a zero and the rest of the payload.
\<close>

lemma COBS_decode_all_last_return:
  "cs \<noteq> [] \<Longrightarrow> COBS_decode_all cs dest sz st r = COBS_decode_all cs dest sz st 0"
  by (cases cs) simp_all

lemma COBS_decode_data:
  assumes "COBS_DEL \<notin> set g"
    and "cobs_code st = of_nat (length g)" and "length g \<le> 254"
    and "cobs_count st = of_nat (length d)"
    and "length d + length g \<le> unat sz" and "length g \<le> length f"
    and "rest \<noteq> []"
  shows "COBS_decode_all (g @ rest) (d @ f) sz st r =
           COBS_decode_all rest (d @ g @ drop (length g) f) sz
             \<lparr>cobs_code = 0, cobs_count = of_nat (length d + length g)\<rparr> 0"
  using assms
proof (induction g arbitrary: d f st r)
  case Nil
  then have "st = \<lparr>cobs_code = 0, cobs_count = of_nat (length d)\<rparr>"
    by simp
  with Nil.prems show ?case
    using COBS_decode_all_last_return [of rest] by simp
next
  case (Cons x g)
  from Cons.prems have x: "x \<noteq> COBS_DEL" and g: "COBS_DEL \<notin> set g"
    by auto
  have sz255: "unat sz \<le> 255"
    using unsigned_less [of sz, where ?'a = nat] by simp
  have code: "cobs_code st \<noteq> 255" "cobs_code st \<noteq> 0"
    using Cons.prems(2,3) u8_of_nat_inj [of "length (x # g)" 255] u8_of_nat_zero [of "length (x # g)"]
    by simp_all
  have code': "cobs_code st - 1 = of_nat (length g)"
    using Cons.prems(2) by simp
  have d: "length d < 256" "length d < unat sz"
    using Cons.prems(5) sz255 by simp_all
  have lt: "cobs_count st < sz"
    using Cons.prems(4) d by (simp add: word_less_nat_alt u8_unat_of_nat)
  have idx: "unat (of_nat (length d) :: u8) = length d"
    using d by (simp add: u8_unat_of_nat)
  obtain y f' where f: "f = y # f'"
    using Cons.prems(6) by (cases f) simp_all
  define st' :: COBS_ctrl where "st' = \<lparr>cobs_code = of_nat (length g), cobs_count = of_nat (length (d @ [x]))\<rparr>"
  have step: "COBS_decode_inline x (d @ f) sz st = (0, (d @ [x]) @ f', st')"
    using x code lt
    by (simp add: COBS_decode_inline_def COBS_store_def Let_def idx f code' st'_def Cons.prems(4))
  have IH: "COBS_decode_all (g @ rest) ((d @ [x]) @ f') sz st' 0 =
           COBS_decode_all rest ((d @ [x]) @ g @ drop (length g) f') sz
             \<lparr>cobs_code = 0, cobs_count = of_nat (length (d @ [x]) + length g)\<rparr> 0"
    using Cons.prems g by (intro Cons.IH) (simp_all add: st'_def f)
  show ?case
    using IH step by (simp add: f)
qed


lemma COBS_decode_delimiter:
  "COBS_decode_inline COBS_DEL dest sz \<lparr>cobs_code = 0, cobs_count = n\<rparr> =
     (n, dest, \<lparr>cobs_code = 255, cobs_count = 0\<rparr>)"
  by (simp add: COBS_decode_inline_def)

lemma COBS_decode_code:
  assumes "c \<noteq> COBS_DEL" and "length d < unat sz" and "f = y # f'"
  shows "COBS_decode_inline c (d @ f) sz \<lparr>cobs_code = 0, cobs_count = of_nat (length d)\<rparr> =
           (0, (d @ [COBS_DEL]) @ f', \<lparr>cobs_code = c - 1, cobs_count = of_nat (length (d @ [COBS_DEL]))\<rparr>)"
proof -
  have sz255: "unat sz \<le> 255"
    using unsigned_less [of sz, where ?'a = nat] by simp
  have d: "length d < 256"
    using assms(2) sz255 by simp
  have lt: "(of_nat (length d) :: u8) < sz"
    using assms(2) d by (simp add: word_less_nat_alt u8_unat_of_nat)
  have idx: "unat (of_nat (length d) :: u8) = length d"
    using d by (simp add: u8_unat_of_nat)
  show ?thesis
    using assms(1) lt by (simp add: COBS_decode_inline_def COBS_store_def Let_def idx assms(3) COBS_DEL_def)
qed

lemma COBS_decode_groups:
  assumes "length d + 1 + length q \<le> unat sz" and "1 + length q \<le> length f"
  shows "COBS_decode_all (COBS_stuffed q @ [COBS_DEL]) (d @ f) sz
           \<lparr>cobs_code = 0, cobs_count = of_nat (length d)\<rparr> r =
         (of_nat (length d + 1 + length q), d @ COBS_DEL # q @ drop (1 + length q) f,
          \<lparr>cobs_code = 255, cobs_count = 0\<rparr>)"
  using assms
proof (induction "length q" arbitrary: q d f r rule: less_induct)
  case less
  have sz255: "unat sz \<le> 255"
    using unsigned_less [of sz, where ?'a = nat] by simp
  obtain y f' where f: "f = y # f'"
    using less.prems(2) by (cases f) simp_all
  from COBS_split [of q] show ?case
  proof
    assume free: "COBS_DEL \<notin> set q"
    define c :: u8 where "c = of_nat (length q + 1)"
    have c: "c \<noteq> COBS_DEL" "c - 1 = of_nat (length q)"
      unfolding c_def using less.prems(1) sz255 u8_of_nat_zero [of "length q + 1"]
      by (simp_all add: COBS_DEL_def)
    have code: "COBS_decode_inline c (d @ f) sz \<lparr>cobs_code = 0, cobs_count = of_nat (length d)\<rparr> =
           (0, (d @ [COBS_DEL]) @ f', \<lparr>cobs_code = of_nat (length q), cobs_count = of_nat (length (d @ [COBS_DEL]))\<rparr>)"
      using COBS_decode_code [OF c(1) _ f, of d sz] less.prems(1) by (simp add: c(2))
    have data: "COBS_decode_all (q @ [COBS_DEL]) ((d @ [COBS_DEL]) @ f') sz
        \<lparr>cobs_code = of_nat (length q), cobs_count = of_nat (length (d @ [COBS_DEL]))\<rparr> 0 =
      COBS_decode_all [COBS_DEL] ((d @ [COBS_DEL]) @ q @ drop (length q) f') sz
        \<lparr>cobs_code = 0, cobs_count = of_nat (length (d @ [COBS_DEL]) + length q)\<rparr> 0"
      using less.prems sz255 free by (intro COBS_decode_data) (simp_all add: f)
    have "COBS_decode_all ((c # q) @ [COBS_DEL]) (d @ f) sz
           \<lparr>cobs_code = 0, cobs_count = of_nat (length d)\<rparr> r =
         (of_nat (length d + 1 + length q), d @ COBS_DEL # q @ drop (1 + length q) f,
          \<lparr>cobs_code = 255, cobs_count = 0\<rparr>)"
      using code data by (simp add: COBS_decode_delimiter f)
    then show ?thesis
      by (simp only: COBS_stuffed_free [OF free] c_def)
  next
    assume "\<exists>g q'. q = g @ COBS_DEL # q' \<and> COBS_DEL \<notin> set g"
    then obtain g q' where q: "q = g @ COBS_DEL # q'" and free: "COBS_DEL \<notin> set g"
      by blast
    define c :: u8 where "c = of_nat (length g + 1)"
    have c: "c \<noteq> COBS_DEL" "c - 1 = of_nat (length g)"
      unfolding c_def using less.prems(1) sz255 u8_of_nat_zero [of "length g + 1"]
      by (simp_all add: COBS_DEL_def q)
    have code: "COBS_decode_inline c (d @ f) sz \<lparr>cobs_code = 0, cobs_count = of_nat (length d)\<rparr> =
           (0, (d @ [COBS_DEL]) @ f', \<lparr>cobs_code = of_nat (length g), cobs_count = of_nat (length (d @ [COBS_DEL]))\<rparr>)"
      using COBS_decode_code [OF c(1) _ f, of d sz] less.prems(1) by (simp add: c(2))
    have data: "COBS_decode_all (g @ COBS_stuffed q' @ [COBS_DEL]) ((d @ [COBS_DEL]) @ f') sz
        \<lparr>cobs_code = of_nat (length g), cobs_count = of_nat (length (d @ [COBS_DEL]))\<rparr> 0 =
      COBS_decode_all (COBS_stuffed q' @ [COBS_DEL]) ((d @ [COBS_DEL]) @ g @ drop (length g) f') sz
        \<lparr>cobs_code = 0, cobs_count = of_nat (length (d @ [COBS_DEL]) + length g)\<rparr> 0"
      using less.prems sz255 free by (intro COBS_decode_data) (simp_all add: f q)
    have IH: "COBS_decode_all (COBS_stuffed q' @ [COBS_DEL]) ((d @ COBS_DEL # g) @ drop (length g) f') sz
           \<lparr>cobs_code = 0, cobs_count = of_nat (length (d @ COBS_DEL # g))\<rparr> 0 =
         (of_nat (length (d @ COBS_DEL # g) + 1 + length q'),
          (d @ COBS_DEL # g) @ COBS_DEL # q' @ drop (1 + length q') (drop (length g) f'),
          \<lparr>cobs_code = 255, cobs_count = 0\<rparr>)"
      using less.prems by (intro less.hyps) (simp_all add: q f)
    have "COBS_decode_all ((c # g @ COBS_stuffed q') @ [COBS_DEL]) (d @ f) sz
           \<lparr>cobs_code = 0, cobs_count = of_nat (length d)\<rparr> r =
         (of_nat (length d + 1 + length q), d @ COBS_DEL # q @ drop (1 + length q) f,
          \<lparr>cobs_code = 255, cobs_count = 0\<rparr>)"
      using code data IH by (simp add: f q, (simp add: add.commute add.left_commute)?)
    then show ?thesis
      by (simp only: q COBS_stuffed_group [OF free] c_def)
  qed
qed

lemma COBS_decode_start:
  "COBS_decode_inline COBS_DEL dest sz COBS_ctrl_init = (0, dest, \<lparr>cobs_code = 255, cobs_count = 0\<rparr>)"
  by (simp add: COBS_decode_inline_def COBS_ctrl_init_def)

lemma COBS_decode_first_code:
  assumes "1 < c"
  shows "COBS_decode_inline c dest sz \<lparr>cobs_code = 255, cobs_count = 0\<rparr> =
           (0, dest, \<lparr>cobs_code = c - 1, cobs_count = 0\<rparr>)"
proof -
  from assms have "c \<noteq> 0"
    by auto
  with assms show ?thesis
    by (simp add: COBS_decode_inline_def COBS_DEL_def)
qed

lemma COBS_decode_first_code_1:
  assumes "0 < sz"
  shows "COBS_decode_inline 1 (y # f) sz \<lparr>cobs_code = 255, cobs_count = 0\<rparr> =
           (0, COBS_DEL # f, \<lparr>cobs_code = 0, cobs_count = 1\<rparr>)"
  using assms by (simp add: COBS_decode_inline_def COBS_store_def COBS_DEL_def)

text \<open>
  The decoder's half of the round trip holds for every payload whose first byte is not zero:
  from the initial state, with room for the payload, the frame decodes to the payload and
  the closing delimiter returns its length.
\<close>

lemma COBS_decode_stuffed:
  assumes "p = x # p'" and "x \<noteq> COBS_DEL"
    and "length p \<le> 253" and "length p \<le> unat sz" and "length p \<le> length dest"
  shows "COBS_decode_all (COBS_DEL # COBS_stuffed p @ [COBS_DEL]) dest sz COBS_ctrl_init r =
           (of_nat (length p), p @ drop (length p) dest, \<lparr>cobs_code = 255, cobs_count = 0\<rparr>)"
proof -
  from COBS_split [of p] show ?thesis
  proof
    assume free: "COBS_DEL \<notin> set p"
    define c :: u8 where "c = of_nat (length p + 1)"
    have "unat c = length p + 1"
      unfolding c_def using assms(3) u8_unat_of_nat [of "length p + 1"] by simp
    then have c: "1 < c"
      using assms(1) by (simp add: word_less_nat_alt)
    have c1: "c - 1 = of_nat (length p)"
      by (simp add: c_def)
    have data: "COBS_decode_all (p @ [COBS_DEL]) ([] @ dest) sz
        \<lparr>cobs_code = of_nat (length p), cobs_count = of_nat (length ([] :: u8 list))\<rparr> 0 =
      COBS_decode_all [COBS_DEL] ([] @ p @ drop (length p) dest) sz
        \<lparr>cobs_code = 0, cobs_count = of_nat (length ([] :: u8 list) + length p)\<rparr> 0"
      using assms free by (intro COBS_decode_data) simp_all
    have "COBS_decode_all (COBS_DEL # (c # p) @ [COBS_DEL]) dest sz COBS_ctrl_init r =
           (of_nat (length p), p @ drop (length p) dest, \<lparr>cobs_code = 255, cobs_count = 0\<rparr>)"
      using data by (simp add: COBS_decode_start COBS_decode_first_code [OF c] c1 COBS_decode_delimiter)
    then show ?thesis
      by (simp only: COBS_stuffed_free [OF free] c_def)
  next
    assume "\<exists>g q. p = g @ COBS_DEL # q \<and> COBS_DEL \<notin> set g"
    then obtain g q where p: "p = g @ COBS_DEL # q" and free: "COBS_DEL \<notin> set g"
      by blast
    from p assms(1,2) have g: "g \<noteq> []"
      by (cases g) auto
    define c :: u8 where "c = of_nat (length g + 1)"
    have "unat c = length g + 1"
      unfolding c_def using assms(3) p u8_unat_of_nat [of "length g + 1"] by simp
    then have c: "1 < c"
      using g by (simp add: word_less_nat_alt)
    have c1: "c - 1 = of_nat (length g)"
      by (simp add: c_def)
    have data: "COBS_decode_all (g @ COBS_stuffed q @ [COBS_DEL]) ([] @ dest) sz
        \<lparr>cobs_code = of_nat (length g), cobs_count = of_nat (length ([] :: u8 list))\<rparr> 0 =
      COBS_decode_all (COBS_stuffed q @ [COBS_DEL]) ([] @ g @ drop (length g) dest) sz
        \<lparr>cobs_code = 0, cobs_count = of_nat (length ([] :: u8 list) + length g)\<rparr> 0"
      using assms(3-5) free by (intro COBS_decode_data) (simp_all add: p)
    have groups: "COBS_decode_all (COBS_stuffed q @ [COBS_DEL]) (g @ drop (length g) dest) sz
           \<lparr>cobs_code = 0, cobs_count = of_nat (length g)\<rparr> 0 =
         (of_nat (length g + 1 + length q), g @ COBS_DEL # q @ drop (1 + length q) (drop (length g) dest),
          \<lparr>cobs_code = 255, cobs_count = 0\<rparr>)"
      using assms(3-5) by (intro COBS_decode_groups) (simp_all add: p)
    have "COBS_decode_all (COBS_DEL # (c # g @ COBS_stuffed q) @ [COBS_DEL]) dest sz COBS_ctrl_init r =
           (of_nat (length p), p @ drop (length p) dest, \<lparr>cobs_code = 255, cobs_count = 0\<rparr>)"
      using data groups
      by (simp add: COBS_decode_start COBS_decode_first_code [OF c] c1 p, (simp add: add.commute add.left_commute)?)
    then show ?thesis
      by (simp only: p COBS_stuffed_group [OF free] c_def)
  qed
qed

text \<open>
  A payload whose first byte is zero is encoded with a first code byte of 1. The decoder
  stores a zero for it at once, and stores the zero of the same run again at the next code
  byte: with room for one byte more than the payload, the frame decodes to the payload
  behind an extra zero, and the closing delimiter returns the length plus one.
\<close>

lemma COBS_decode_stuffed_leading_zero:
  assumes "p = COBS_DEL # q"
    and "length p + 1 \<le> unat sz" and "length p + 1 \<le> length dest"
  shows "COBS_decode_all (COBS_DEL # COBS_stuffed p @ [COBS_DEL]) dest sz COBS_ctrl_init r =
           (of_nat (length p + 1), COBS_DEL # p @ drop (length p + 1) dest,
            \<lparr>cobs_code = 255, cobs_count = 0\<rparr>)"
proof -
  obtain y f where dest: "dest = y # f"
    using assms(3) by (cases dest) simp_all
  have sz: "0 < sz"
    using assms(2) by (simp add: word_less_nat_alt)
  have groups: "COBS_decode_all (COBS_stuffed q @ [COBS_DEL]) ([COBS_DEL] @ f) sz
           \<lparr>cobs_code = 0, cobs_count = of_nat (length [COBS_DEL])\<rparr> 0 =
         (of_nat (length [COBS_DEL] + 1 + length q), [COBS_DEL] @ COBS_DEL # q @ drop (1 + length q) f,
          \<lparr>cobs_code = 255, cobs_count = 0\<rparr>)"
    using assms by (intro COBS_decode_groups) (simp_all add: dest)
  show ?thesis
    using groups
    by (simp add: assms(1) COBS_decode_start COBS_decode_first_code_1 [OF sz] dest,
        (simp add: add.commute add.left_commute)?)
qed

text \<open>
  Claim C1 fails on the code for a payload that starts with \<^verbatim>\<open>0x00\<close>. The one-byte
  payload \<^verbatim>\<open>00\<close> is encoded as \<^verbatim>\<open>00 01 01 00\<close>; fed to the inline decoder (from its
  initial state, destination of two bytes), the first code byte \<^verbatim>\<open>01\<close> already stores a
  zero and the second stores another, so the closing delimiter returns 2 with the
  destination holding \<^verbatim>\<open>00 00\<close>. With a destination of one byte, as large as the payload,
  the second store overruns and the closing delimiter returns 0.
\<close>

theorem COBS_round_trip_fails_on_leading_zero:
  "COBS_encode (COBS_buffer 0xAA 0xAA [0x00] 0xAA) 1 False = Some [0x00, 0x01, 0x01, 0x00] \<and>
   COBS_decode_all [0x00, 0x01, 0x01, 0x00] [0xAA, 0xAA] 2 COBS_ctrl_init 0 =
     (2, [0x00, 0x00], \<lparr>cobs_code = 255, cobs_count = 0\<rparr>) \<and>
   COBS_decode_all [0x00, 0x01, 0x01, 0x00] [0xAA] 1 COBS_ctrl_init 0 =
     (0, [0x00], \<lparr>cobs_code = 255, cobs_count = 0\<rparr>)"
  by code_simp


end
